theory Spec2Isabelle
  imports Main
begin

section \<open>JavaScript values and parsed documents\<close>

text \<open>
  The program is TypeScript, so at run time a task, a configuration and a request body
  are plain JavaScript objects, and the declared interfaces (\<open>Task\<close>,
  \<open>BoardConfig\<close>, \<open>GlobalConfig\<close>) are unchecked casts over what the
  parsers return. The model therefore works on untyped values.

  \<open>json\<close> is what \<open>JSON.parse\<close> and \<open>yaml.parse\<close> can return and what a file
  can hold; \<open>jsval\<close> is a value in memory, which can also be \<open>undefined\<close>.
  A number is kept as its text (what \<open>String(n)\<close> gives): the program never
  calculates with a number read from a file. An object is the list of its own
  properties in insertion order, with no key twice. (JavaScript lists keys that look
  like array indices before the others; none of the program's own keys does, and the
  order of keys carries no meaning in the files.)
\<close>

datatype json = JNull | JBool bool | JNum string | JStr string
  | JArr "json list" | JObj "(string \<times> json) list"

datatype jsval = Undefined | Null | Bool bool | Num string | Str string
  | Arr "jsval list" | Obj "(string \<times> jsval) list"

type_synonym props = "(string \<times> jsval) list"

text \<open>The value a parser builds from a document.\<close>

fun of_json :: "json \<Rightarrow> jsval" where
  "of_json JNull = Null"
| "of_json (JBool b) = Bool b"
| "of_json (JNum n) = Num n"
| "of_json (JStr s) = Str s"
| "of_json (JArr xs) = Arr (map of_json xs)"
| "of_json (JObj kvs) = Obj (map (\<lambda>(k, v). (k, of_json v)) kvs)"

text \<open>
  The document that \<open>JSON.stringify\<close> writes for a value: a property holding
  \<open>undefined\<close> is left out, \<open>undefined\<close> inside an array is written as
  \<open>null\<close>, and so is a number that JSON has no text for (\<open>NaN\<close>, and
  \<open>Infinity\<close>, which \<open>JSON.parse\<close> gives for a literal such as \<open>1e999\<close>).
  The program only ever writes arrays and objects.
\<close>

fun to_json :: "jsval \<Rightarrow> json" where
  "to_json Undefined = JNull"
| "to_json Null = JNull"
| "to_json (Bool b) = JBool b"
| "to_json (Num n) = (if n \<in> set [''Infinity'', ''-Infinity'', ''NaN''] then JNull else JNum n)"
| "to_json (Str s) = JStr s"
| "to_json (Arr xs) = JArr (map to_json xs)"
| "to_json (Obj kvs) =
     JObj (map (\<lambda>(k, v). (k, to_json v)) (filter (\<lambda>(k, v). v \<noteq> Undefined) kvs))"

text \<open>
  The document that \<open>yaml.stringify\<close> writes: as above, but YAML has a text for
  every number (\<open>.inf\<close>, \<open>.nan\<close>).
\<close>

fun to_yaml :: "jsval \<Rightarrow> json" where
  "to_yaml Undefined = JNull"
| "to_yaml Null = JNull"
| "to_yaml (Bool b) = JBool b"
| "to_yaml (Num n) = JNum n"
| "to_yaml (Str s) = JStr s"
| "to_yaml (Arr xs) = JArr (map to_yaml xs)"
| "to_yaml (Obj kvs) =
     JObj (map (\<lambda>(k, v). (k, to_yaml v)) (filter (\<lambda>(k, v). v \<noteq> Undefined) kvs))"

text \<open>
  A value after \<open>JSON.stringify\<close> has written it and \<open>JSON.parse\<close> has read it
  back, and the documents that come back as they are.
\<close>

definition rewritten :: "jsval \<Rightarrow> jsval" where
  "rewritten v = of_json (to_json v)"

fun finite_numbers :: "json \<Rightarrow> bool" where
  "finite_numbers (JNum n) = (n \<notin> set [''Infinity'', ''-Infinity'', ''NaN''])"
| "finite_numbers (JArr xs) = list_all finite_numbers xs"
| "finite_numbers (JObj kvs) = list_all (\<lambda>(k, v). finite_numbers v) kvs"
| "finite_numbers j = True"

text \<open>Truthiness, as \<open>!v\<close> and \<open>a || b\<close> test it.\<close>

fun truthy :: "jsval \<Rightarrow> bool" where
  "truthy Undefined = False"
| "truthy Null = False"
| "truthy (Bool b) = b"
| "truthy (Num n) = (n \<noteq> ''0'' \<and> n \<noteq> ''NaN'')"
| "truthy (Str s) = (s \<noteq> [])"
| "truthy (Arr xs) = True"
| "truthy (Obj kvs) = True"

definition or_else :: "jsval \<Rightarrow> jsval \<Rightarrow> jsval" where
  "or_else a b = (if truthy a then a else b)"

text \<open>
  Errors as values. \<open>Error msg\<close> is \<open>throw new Error(msg)\<close>; \<open>TypeError\<close> is what
  the runtime throws on a property read of \<open>null\<close>, on a call of something that
  is no function, or on a path that is no string.
\<close>

datatype error = Error string | TypeError

text \<open>
  Reading a property, \<open>v.k\<close>, for the keys the program reads (\<open>id\<close>,
  \<open>column\<close>, \<open>title\<close>, \<open>tasksFile\<close>, \<open>lastProjectPath\<close>,
  \<open>recentProjects\<close>): none of them is defined on a prototype, so anything but an
  object with that key gives \<open>undefined\<close>, and \<open>null\<close> throws.
\<close>

definition get :: "props \<Rightarrow> string \<Rightarrow> jsval" where
  "get kvs k = (case map_of kvs k of None \<Rightarrow> Undefined | Some v \<Rightarrow> v)"

fun read_prop :: "jsval \<Rightarrow> string \<Rightarrow> error + jsval" where
  "read_prop Undefined k = Inl TypeError"
| "read_prop Null k = Inl TypeError"
| "read_prop (Obj kvs) k = Inr (get kvs k)"
| "read_prop v k = Inr Undefined"

text \<open>Assigning a property: an existing key keeps its place, a new key goes last.\<close>

fun set_prop :: "string \<Rightarrow> 'a \<Rightarrow> (string \<times> 'a) list \<Rightarrow> (string \<times> 'a) list" where
  "set_prop k v [] = [(k, v)]"
| "set_prop k v ((k', v') # kvs) =
     (if k' = k then (k, v) # kvs else (k', v') # set_prop k v kvs)"

text \<open>Decimal text of an array index.\<close>

function show_nat :: "nat \<Rightarrow> string" where
  "show_nat n =
     (if n < 10 then [''0123456789'' ! n]
      else show_nat (n div 10) @ [''0123456789'' ! (n mod 10)])"
  by pat_completeness auto
termination
  by (relation "measure id") auto

declare show_nat.simps [simp del]

definition indexed :: "jsval list \<Rightarrow> props" where
  "indexed xs = zip (map show_nat [0..<length xs]) xs"

text \<open>
  The own enumerable properties that an object spread \<open>{...v}\<close> copies: those of
  an object, the elements of an array and the characters of a string under their
  indices, nothing for the other values.
\<close>

fun own_props :: "jsval \<Rightarrow> props" where
  "own_props (Obj kvs) = kvs"
| "own_props (Arr xs) = indexed xs"
| "own_props (Str s) = indexed (map (\<lambda>c. Str [c]) s)"
| "own_props v = []"

text \<open>\<open>{...a, ...b}\<close>: the properties of \<open>b\<close> assigned over those of \<open>a\<close>, one by one.\<close>

definition spread :: "props \<Rightarrow> props \<Rightarrow> props" where
  "spread a b = fold (\<lambda>(k, v). set_prop k v) b a"

fun join :: "string \<Rightarrow> string list \<Rightarrow> string" where
  "join sep [] = []"
| "join sep [x] = x"
| "join sep (x # y # ys) = x @ sep @ join sep (y # ys)"

text \<open>The text of a value in a template literal and as a property key.\<close>

fun to_string :: "jsval \<Rightarrow> string" where
  "to_string Undefined = ''undefined''"
| "to_string Null = ''null''"
| "to_string (Bool b) = (if b then ''true'' else ''false'')"
| "to_string (Num n) = n"
| "to_string (Str s) = s"
| "to_string (Arr xs) =
     join '','' (map (\<lambda>x. if x = Undefined \<or> x = Null then [] else to_string x) xs)"
| "to_string (Obj kvs) = ''[object Object]''"

text \<open>\<open>xs.indexOf(v)\<close>, \<open>None\<close> for \<open>-1\<close>, and \<open>xs.splice(i, 1)\<close>.\<close>

fun indexOf :: "'a list \<Rightarrow> 'a \<Rightarrow> nat option" where
  "indexOf [] v = None"
| "indexOf (x # xs) v =
     (if x = v then Some 0 else (case indexOf xs v of None \<Rightarrow> None | Some i \<Rightarrow> Some (Suc i)))"

definition splice1 :: "nat \<Rightarrow> 'a list \<Rightarrow> 'a list" where
  "splice1 i xs = take i xs @ drop (Suc i) xs"

section \<open>The environment: files, clock, identifiers\<close>

text \<open>
  A file is represented by what its parser makes of its text: a document, or a
  failure to parse (\<open>Garbled\<close>). Files are found by their path. \<open>path.join\<close> is
  modelled for a directory and a plain file name, with no normalisation. Directories,
  permissions and disk space are not modelled: a write always succeeds.

  \<open>new Date().toISOString()\<close> and \<open>uuidv4()\<close> read the environment: each call takes
  the next value of a sequence that the world carries.
\<close>

datatype content = Garbled | Doc json

record world =
  files :: "string \<rightharpoonup> content"
  clock :: "nat \<Rightarrow> string"
  ticks :: nat
  uuids :: "nat \<Rightarrow> string"
  drawn :: nat

definition toISOString_now :: "world \<Rightarrow> string \<times> world" where
  "toISOString_now w = (clock w (ticks w), w\<lparr>ticks := Suc (ticks w)\<rparr>)"

definition uuidv4 :: "world \<Rightarrow> string \<times> world" where
  "uuidv4 w = (uuids w (drawn w), w\<lparr>drawn := Suc (drawn w)\<rparr>)"

definition path_join :: "string \<Rightarrow> string \<Rightarrow> string" where
  "path_join dir name = dir @ ''/'' @ name"

definition writeFileSync :: "string \<Rightarrow> json \<Rightarrow> world \<Rightarrow> world" where
  "writeFileSync path doc w = w\<lparr>files := (files w)(path \<mapsto> Doc doc)\<rparr>"

definition renameSync :: "string \<Rightarrow> string \<Rightarrow> world \<Rightarrow> world" where
  "renameSync old new w = w\<lparr>files := ((files w)(new := files w old))(old := None)\<rparr>"

section \<open>config/config.ts\<close>

definition CONFIG_FILENAME :: string where
  "CONFIG_FILENAME = ''.config-viban.yml''"

definition DEFAULT_CONFIG :: props where
  "DEFAULT_CONFIG = [(''boardName'', Str ''Kanban Board''), (''tasksFile'', Str ''tasks.json'')]"

definition getConfigPath :: "string \<Rightarrow> string" where
  "getConfigPath projectPath = path_join projectPath CONFIG_FILENAME"

definition saveConfig :: "string \<Rightarrow> props \<Rightarrow> world \<Rightarrow> world" where
  "saveConfig projectPath config w =
     writeFileSync (getConfigPath projectPath) (to_yaml (Obj config)) w"

definition loadConfig :: "string \<Rightarrow> world \<Rightarrow> (error + props) \<times> world" where
  "loadConfig projectPath w =
     (let configPath = getConfigPath projectPath in
      case files w configPath of
        None \<Rightarrow>
          (let (now, w1) = toISOString_now w;
               config = set_prop ''createdAt'' (Str now) DEFAULT_CONFIG
           in (Inr config, saveConfig projectPath config w1))
      | Some Garbled \<Rightarrow> (Inl (Error (''Failed to parse config file: '' @ configPath)), w)
      | Some (Doc parsed) \<Rightarrow> (Inr (spread DEFAULT_CONFIG (own_props (of_json parsed))), w))"

section \<open>board/types.ts\<close>

definition COLUMNS :: "string list" where
  "COLUMNS = [''backlog'', ''todo'', ''review'', ''done'']"

definition PRIORITIES :: "string list" where
  "PRIORITIES = [''low'', ''medium'', ''high'']"

fun is_string :: "jsval \<Rightarrow> bool" where
  "is_string (Str s) = True"
| "is_string v = False"

text \<open>
  \<open>interface Task\<close>: the values that the type \<open>Task\<close> admits. Nothing in the
  program checks it at run time.
\<close>

fun is_Task :: "jsval \<Rightarrow> bool" where
  "is_Task (Obj kvs) =
     (is_string (get kvs ''id'') \<and> is_string (get kvs ''title'') \<and>
      (is_string (get kvs ''description'') \<or> get kvs ''description'' = Undefined) \<and>
      get kvs ''column'' \<in> Str ` set COLUMNS \<and>
      get kvs ''priority'' \<in> Str ` set PRIORITIES \<and>
      is_string (get kvs ''createdAt'') \<and> is_string (get kvs ''updatedAt''))"
| "is_Task v = False"


section \<open>board/storage.ts\<close>

definition getTasksPath :: "string \<Rightarrow> world \<Rightarrow> (error + string) \<times> world" where
  "getTasksPath projectPath w =
     (case loadConfig projectPath w of
        (Inl e, w1) \<Rightarrow> (Inl e, w1)
      | (Inr config, w1) \<Rightarrow>
          (case get config ''tasksFile'' of
             Str name \<Rightarrow> (Inr (path_join projectPath name), w1)
           | _ \<Rightarrow> (Inl TypeError, w1)))"

text \<open>The write goes to a temporary file that is then renamed over the tasks file.\<close>

definition saveTasks :: "string \<Rightarrow> jsval list \<Rightarrow> world \<Rightarrow> (error + unit) \<times> world" where
  "saveTasks projectPath tasks w =
     (case getTasksPath projectPath w of
        (Inl e, w1) \<Rightarrow> (Inl e, w1)
      | (Inr tasksPath, w1) \<Rightarrow>
          (let content = to_json (Arr tasks);
               tempPath = tasksPath @ ''.tmp''
           in (Inr (), renameSync tempPath tasksPath (writeFileSync tempPath content w1))))"

definition loadTasks :: "string \<Rightarrow> world \<Rightarrow> (error + jsval list) \<times> world" where
  "loadTasks projectPath w =
     (case getTasksPath projectPath w of
        (Inl e, w1) \<Rightarrow> (Inl e, w1)
      | (Inr tasksPath, w1) \<Rightarrow>
          (case files w1 tasksPath of
             None \<Rightarrow>
               (case saveTasks projectPath [] w1 of
                  (Inl e, w2) \<Rightarrow> (Inl e, w2)
                | (Inr u, w2) \<Rightarrow> (Inr [], w2))
           | Some Garbled \<Rightarrow> (Inl (Error (''Invalid JSON in tasks file: '' @ tasksPath)), w1)
           | Some (Doc parsed) \<Rightarrow>
               (case of_json parsed of
                  Arr tasks \<Rightarrow> (Inr tasks, w1)
                | _ \<Rightarrow> (Inl (Error ''Tasks file must contain an array''), w1))))"

text \<open>\<open>tasks.findIndex(t => t.id === taskId)\<close>, \<open>None\<close> for \<open>-1\<close>.\<close>

fun findIndex_id :: "jsval list \<Rightarrow> string \<Rightarrow> error + nat option" where
  "findIndex_id [] taskId = Inr None"
| "findIndex_id (t # ts) taskId =
     (case read_prop t ''id'' of
        Inl e \<Rightarrow> Inl e
      | Inr v \<Rightarrow>
          if v = Str taskId then Inr (Some 0)
          else (case findIndex_id ts taskId of
                  Inl e \<Rightarrow> Inl e
                | Inr None \<Rightarrow> Inr None
                | Inr (Some i) \<Rightarrow> Inr (Some (Suc i))))"

text \<open>\<open>tasks.find(t => t.id === taskId) || null\<close>.\<close>

fun find_id :: "jsval list \<Rightarrow> string \<Rightarrow> error + jsval" where
  "find_id [] taskId = Inr Null"
| "find_id (t # ts) taskId =
     (case read_prop t ''id'' of
        Inl e \<Rightarrow> Inl e
      | Inr v \<Rightarrow> if v = Str taskId then Inr (or_else t Null) else find_id ts taskId)"

definition storageUpdateTask ::
  "string \<Rightarrow> string \<Rightarrow> jsval \<Rightarrow> world \<Rightarrow> (error + jsval) \<times> world" where
  "storageUpdateTask projectPath taskId updates w =
     (case loadTasks projectPath w of
        (Inl e, w1) \<Rightarrow> (Inl e, w1)
      | (Inr tasks, w1) \<Rightarrow>
          (case findIndex_id tasks taskId of
             Inl e \<Rightarrow> (Inl e, w1)
           | Inr None \<Rightarrow> (Inr Null, w1)
           | Inr (Some index) \<Rightarrow>
               (let (now, w2) = toISOString_now w1;
                    updated = Obj (set_prop ''updatedAt'' (Str now)
                                (spread (own_props (tasks ! index)) (own_props updates)));
                    tasks' = tasks[index := updated]
                in case saveTasks projectPath tasks' w2 of
                     (Inl e, w3) \<Rightarrow> (Inl e, w3)
                   | (Inr u, w3) \<Rightarrow> (Inr updated, w3))))"

definition storageDeleteTask :: "string \<Rightarrow> string \<Rightarrow> world \<Rightarrow> (error + bool) \<times> world" where
  "storageDeleteTask projectPath taskId w =
     (case loadTasks projectPath w of
        (Inl e, w1) \<Rightarrow> (Inl e, w1)
      | (Inr tasks, w1) \<Rightarrow>
          (case findIndex_id tasks taskId of
             Inl e \<Rightarrow> (Inl e, w1)
           | Inr None \<Rightarrow> (Inr False, w1)
           | Inr (Some index) \<Rightarrow>
               (case saveTasks projectPath (splice1 index tasks) w1 of
                  (Inl e, w2) \<Rightarrow> (Inl e, w2)
                | (Inr u, w2) \<Rightarrow> (Inr True, w2))))"

definition storageFindTask :: "string \<Rightarrow> string \<Rightarrow> world \<Rightarrow> (error + jsval) \<times> world" where
  "storageFindTask projectPath taskId w =
     (case loadTasks projectPath w of
        (Inl e, w1) \<Rightarrow> (Inl e, w1)
      | (Inr tasks, w1) \<Rightarrow> (find_id tasks taskId, w1))"

section \<open>board/board.ts\<close>

text \<open>
  A \<open>KanbanBoard\<close> holds nothing but its \<open>projectPath\<close>, so each method is a
  function of that path. The clock is read first, then the identifier is drawn, then
  the input's properties are read.
\<close>

definition createTask :: "string \<Rightarrow> jsval \<Rightarrow> world \<Rightarrow> (error + jsval) \<times> world" where
  "createTask projectPath input w =
     (let (now, w1) = toISOString_now w;
          (uuid, w2) = uuidv4 w1
      in case read_prop input ''title'' of Inl e \<Rightarrow> (Inl e, w2) | Inr title \<Rightarrow>
         case read_prop input ''description'' of Inl e \<Rightarrow> (Inl e, w2) | Inr description \<Rightarrow>
         case read_prop input ''column'' of Inl e \<Rightarrow> (Inl e, w2) | Inr column \<Rightarrow>
         case read_prop input ''priority'' of Inl e \<Rightarrow> (Inl e, w2) | Inr priority \<Rightarrow>
           (let task = Obj [(''id'', Str uuid),
                            (''title'', title),
                            (''description'', description),
                            (''column'', or_else column (Str ''backlog'')),
                            (''priority'', or_else priority (Str ''medium'')),
                            (''createdAt'', Str now),
                            (''updatedAt'', Str now)]
            in case loadTasks projectPath w2 of
                 (Inl e, w3) \<Rightarrow> (Inl e, w3)
               | (Inr tasks, w3) \<Rightarrow>
                   (case saveTasks projectPath (tasks @ [task]) w3 of
                      (Inl e, w4) \<Rightarrow> (Inl e, w4)
                    | (Inr u, w4) \<Rightarrow> (Inr task, w4))))"

definition getTask :: "string \<Rightarrow> string \<Rightarrow> world \<Rightarrow> (error + jsval) \<times> world" where
  "getTask projectPath taskId w = storageFindTask projectPath taskId w"

definition updateTask ::
  "string \<Rightarrow> string \<Rightarrow> jsval \<Rightarrow> world \<Rightarrow> (error + jsval) \<times> world" where
  "updateTask projectPath taskId updates w = storageUpdateTask projectPath taskId updates w"

definition moveTask ::
  "string \<Rightarrow> string \<Rightarrow> jsval \<Rightarrow> world \<Rightarrow> (error + jsval) \<times> world" where
  "moveTask projectPath taskId toColumn w =
     (if toColumn \<notin> set (map Str COLUMNS)
      then (Inl (Error (''Invalid column: '' @ to_string toColumn @
                        ''. Must be one of: '' @ join '', '' COLUMNS)), w)
      else storageUpdateTask projectPath taskId (Obj [(''column'', toColumn)]) w)"

definition deleteTask :: "string \<Rightarrow> string \<Rightarrow> world \<Rightarrow> (error + bool) \<times> world" where
  "deleteTask projectPath taskId w = storageDeleteTask projectPath taskId w"

text \<open>
  \<open>stats[task.column]++\<close> on a record of numbers: a key that is there is counted
  up; a key that is not there reads \<open>undefined\<close>, and \<open>undefined + 1\<close> is
  \<open>NaN\<close>, stored under the new key (the key \<open>__proto__\<close> stores nothing).
\<close>

datatype jsnum = Count nat | NaN

definition increment :: "string \<Rightarrow> (string \<times> jsnum) list \<Rightarrow> (string \<times> jsnum) list" where
  "increment k stats =
     (if k = ''__proto__'' then stats
      else set_prop k (case map_of stats k of Some (Count n) \<Rightarrow> Count (Suc n) | _ \<Rightarrow> NaN) stats)"

fun count_columns ::
  "jsval list \<Rightarrow> (string \<times> jsnum) list \<Rightarrow> error + (string \<times> jsnum) list" where
  "count_columns [] stats = Inr stats"
| "count_columns (task # tasks) stats =
     (case read_prop task ''column'' of
        Inl e \<Rightarrow> Inl e
      | Inr column \<Rightarrow> count_columns tasks (increment (to_string column) stats))"

definition getStats :: "string \<Rightarrow> world \<Rightarrow> (error + (string \<times> jsnum) list) \<times> world" where
  "getStats projectPath w =
     (case loadTasks projectPath w of
        (Inl e, w1) \<Rightarrow> (Inl e, w1)
      | (Inr tasks, w1) \<Rightarrow>
          (count_columns tasks
             [(''backlog'', Count 0), (''todo'', Count 0), (''review'', Count 0), (''done'', Count 0)],
           w1))"

text \<open>The number of tasks of a collection that are in a column.\<close>

definition count_in :: "string \<Rightarrow> jsval list \<Rightarrow> nat" where
  "count_in c tasks = length (filter (\<lambda>t. read_prop t ''column'' = Inr (Str c)) tasks)"

section \<open>web-server.ts: the route that creates a task\<close>

text \<open>
  \<open>POST /api/tasks\<close> in \<open>handleApi\<close>, for a selected project and a body that
  \<open>parseBody\<close> has parsed. Whatever is thrown is caught by \<open>handleRequest\<close>
  and answered with status 500.
\<close>

datatype response = Response nat json

definition sendJson :: "json \<Rightarrow> nat \<Rightarrow> response" where
  "sendJson data status = Response status data"

definition sendError :: "string \<Rightarrow> nat \<Rightarrow> response" where
  "sendError message status = sendJson (JObj [(''error'', JStr message)]) status"

definition handleApi_POST_tasks :: "string \<Rightarrow> json \<Rightarrow> world \<Rightarrow> response \<times> world" where
  "handleApi_POST_tasks projectPath body w =
     (case read_prop (of_json body) ''title'' of
        Inl e \<Rightarrow> (sendError ''Internal server error'' 500, w)
      | Inr title \<Rightarrow>
          if \<not> truthy title then (sendError ''Title required'' 400, w)
          else (case createTask projectPath (of_json body) w of
                  (Inl e, w1) \<Rightarrow> (sendError ''Internal server error'' 500, w1)
                | (Inr task, w1) \<Rightarrow> (sendJson (to_json task) 201, w1)))"

section \<open>config/global-config.ts\<close>

text \<open>The registry file lies in the user's home directory, \<open>os.homedir()\<close>.\<close>

definition GLOBAL_CONFIG_FILENAME :: string where
  "GLOBAL_CONFIG_FILENAME = ''.viban-global.yml''"

definition getGlobalConfigPath :: "string \<Rightarrow> string" where
  "getGlobalConfigPath homedir = path_join homedir GLOBAL_CONFIG_FILENAME"

definition loadGlobalConfig :: "string \<Rightarrow> world \<Rightarrow> jsval" where
  "loadGlobalConfig homedir w =
     (case files w (getGlobalConfigPath homedir) of
        None \<Rightarrow> Obj []
      | Some Garbled \<Rightarrow> Obj []
      | Some (Doc parsed) \<Rightarrow> or_else (of_json parsed) (Obj []))"

definition saveGlobalConfig :: "string \<Rightarrow> jsval \<Rightarrow> world \<Rightarrow> world" where
  "saveGlobalConfig homedir config w =
     writeFileSync (getGlobalConfigPath homedir) (to_yaml config) w"

text \<open>
  The recent list after \<open>indexOf\<close>, \<open>splice\<close>, \<open>unshift\<close> and
  \<open>slice(0, 10)\<close>.
\<close>

definition pushRecent :: "jsval \<Rightarrow> jsval list \<Rightarrow> jsval list" where
  "pushRecent v recentProjects =
     take 10 (v # (case indexOf recentProjects v of
                     None \<Rightarrow> recentProjects
                   | Some index \<Rightarrow> splice1 index recentProjects))"

text \<open>
  The module is an ES module, hence strict: assigning a property to a string, a number
  or a boolean throws, as does calling \<open>indexOf\<close>, \<open>splice\<close> or \<open>unshift\<close>
  on a value that has none. An array takes the two properties as any object does, and
  \<open>yaml.stringify\<close> writes its elements only.
\<close>

definition setLastProjectPath :: "string \<Rightarrow> string \<Rightarrow> world \<Rightarrow> (error + unit) \<times> world" where
  "setLastProjectPath homedir projectPath w =
     (case loadGlobalConfig homedir w of
        Obj kvs \<Rightarrow>
          (let config = set_prop ''lastProjectPath'' (Str projectPath) kvs in
           case or_else (get config ''recentProjects'') (Arr []) of
             Arr recentProjects \<Rightarrow>
               (Inr (),
                saveGlobalConfig homedir
                  (Obj (set_prop ''recentProjects''
                          (Arr (pushRecent (Str projectPath) recentProjects)) config)) w)
           | _ \<Rightarrow> (Inl TypeError, w))
      | Arr xs \<Rightarrow> (Inr (), saveGlobalConfig homedir (Arr xs) w)
      | _ \<Rightarrow> (Inl TypeError, w))"

definition getLastProjectPath :: "string \<Rightarrow> world \<Rightarrow> error + jsval" where
  "getLastProjectPath homedir w = read_prop (loadGlobalConfig homedir w) ''lastProjectPath''"

definition getRecentProjects :: "string \<Rightarrow> world \<Rightarrow> error + jsval" where
  "getRecentProjects homedir w =
     (case read_prop (loadGlobalConfig homedir w) ''recentProjects'' of
        Inl e \<Rightarrow> Inl e
      | Inr v \<Rightarrow> Inr (or_else v (Arr [])))"

text \<open>
  The recent list as the registry is described: the path in front, its earlier
  occurrences removed, at most ten entries.
\<close>

definition recent_spec :: "jsval \<Rightarrow> jsval list \<Rightarrow> jsval list" where
  "recent_spec v recentProjects = take 10 (v # removeAll v recentProjects)"

text \<open>A sequence of calls of \<open>setLastProjectPath\<close>, one after the other.\<close>

fun setLastProjectPaths :: "string \<Rightarrow> string list \<Rightarrow> world \<Rightarrow> (error + unit) \<times> world" where
  "setLastProjectPaths homedir [] w = (Inr (), w)"
| "setLastProjectPaths homedir (projectPath # rest) w =
     (case setLastProjectPath homedir projectPath w of
        (Inl e, w1) \<Rightarrow> (Inl e, w1)
      | (Inr u, w1) \<Rightarrow> setLastProjectPaths homedir rest w1)"

section \<open>The stored collection\<close>

text \<open>
  What the statements about a collection of tasks speak of: every element is an
  object, and \<open>id_of\<close> is the value of its \<open>id\<close>.
\<close>

fun is_object :: "jsval \<Rightarrow> bool" where
  "is_object (Obj kvs) = True"
| "is_object v = False"

definition id_of :: "jsval \<Rightarrow> jsval" where
  "id_of t = (case read_prop t ''id'' of Inl e \<Rightarrow> Undefined | Inr v \<Rightarrow> v)"


text \<open>
  A project is settled when its configuration file parses, names a tasks file, and
  that file holds an array: the state every successful \<open>loadTasks\<close> leaves behind.
  \<open>settled\<close> gives the path of the tasks file and the array in it.
\<close>

definition settled :: "string \<Rightarrow> world \<Rightarrow> (string \<times> json list) option" where
  "settled projectPath w =
     (case files w (getConfigPath projectPath) of
        Some (Doc cfg) \<Rightarrow>
          (case get (spread DEFAULT_CONFIG (own_props (of_json cfg))) ''tasksFile'' of
             Str name \<Rightarrow>
               (case files w (path_join projectPath name) of
                  Some (Doc (JArr js)) \<Rightarrow> Some (path_join projectPath name, js)
                | _ \<Rightarrow> None)
           | _ \<Rightarrow> None)
      | _ \<Rightarrow> None)"

text \<open>
  The object that \<open>storageUpdateTask\<close> puts in the place of \<open>old\<close>:
  \<open>{...old, ...updates, updatedAt: now}\<close>.
\<close>

definition updated_task :: "jsval \<Rightarrow> jsval \<Rightarrow> string \<Rightarrow> jsval" where
  "updated_task old updates now =
     Obj (set_prop ''updatedAt'' (Str now) (spread (own_props old) (own_props updates)))"

text \<open>The world after the tasks file at \<open>path\<close> has been rewritten to hold \<open>js\<close>.\<close>

definition stored :: "string \<Rightarrow> json list \<Rightarrow> world \<Rightarrow> world" where
  "stored path js w =
     w\<lparr>files := (files w)(path \<mapsto> Doc (JArr js), path @ ''.tmp'' := None)\<rparr>"


section \<open>Example worlds\<close>

text \<open>A project \<open>p\<close> with an empty configuration mapping and a tasks file \<open>[42]\<close>.\<close>

definition world_42 :: world where
  "world_42 =
     \<lparr>files = [''p/.config-viban.yml'' \<mapsto> Doc (JObj []),
               ''p/tasks.json'' \<mapsto> Doc (JArr [JNum ''42''])],
      clock = (\<lambda>n. ''t''), ticks = 0, uuids = (\<lambda>n. ''u''), drawn = 0\<rparr>"

text \<open>A project \<open>p\<close> with its configuration and one stored task.\<close>

definition task_one :: json where
  "task_one =
     JObj [(''id'', JStr ''u1''), (''title'', JStr ''Implement login''),
           (''column'', JStr ''backlog''), (''priority'', JStr ''medium''),
           (''createdAt'', JStr ''t0''), (''updatedAt'', JStr ''t0'')]"

definition world_one :: world where
  "world_one =
     \<lparr>files = [''p/.config-viban.yml'' \<mapsto>
                 Doc (JObj [(''boardName'', JStr ''Kanban Board''),
                            (''tasksFile'', JStr ''tasks.json''), (''createdAt'', JStr ''t0'')]),
               ''p/tasks.json'' \<mapsto> Doc (JArr [task_one])],
      clock = (\<lambda>n. ''t1''), ticks = 0,
      uuids = (\<lambda>n. if n = 0 then ''u2'' else ''u3''), drawn = 0\<rparr>"


text \<open>
  A directory \<open>p\<close> with no file yet, and one whose configuration file holds a board
  name only. The clock gives \<open>t1\<close> first and \<open>t2\<close> from then on.
\<close>

definition world_fresh :: world where
  "world_fresh =
     \<lparr>files = Map.empty, clock = (\<lambda>n. if n = 0 then ''t1'' else ''t2''), ticks = 0,
      uuids = (\<lambda>n. ''u''), drawn = 0\<rparr>"

definition world_named :: world where
  "world_named =
     \<lparr>files = [''p/.config-viban.yml'' \<mapsto> Doc (JObj [(''boardName'', JStr ''My Board'')])],
      clock = (\<lambda>n. if n = 0 then ''t1'' else ''t2''), ticks = 0,
      uuids = (\<lambda>n. ''u''), drawn = 0\<rparr>"

text \<open>A home directory \<open>h\<close> whose registry file does not parse.\<close>

definition world_garbled :: world where
  "world_garbled =
     \<lparr>files = [''h/.viban-global.yml'' \<mapsto> Garbled],
      clock = (\<lambda>n. ''t''), ticks = 0, uuids = (\<lambda>n. ''u''), drawn = 0\<rparr>"

text \<open>A project \<open>p\<close> whose one stored task has a column outside the four.\<close>

definition world_urgent :: world where
  "world_urgent =
     \<lparr>files = [''p/.config-viban.yml'' \<mapsto> Doc (JObj []),
               ''p/tasks.json'' \<mapsto>
                 Doc (JArr [JObj [(''id'', JStr ''u1''), (''title'', JStr ''x''),
                                  (''column'', JStr ''urgent'')]])],
      clock = (\<lambda>n. ''t''), ticks = 0, uuids = (\<lambda>n. ''u''), drawn = 0\<rparr>"

text \<open>
  Home directories \<open>h\<close> whose registry file parses to the string \<open>hello\<close>, and
  to a mapping whose \<open>recentProjects\<close> is the string \<open>/old\<close>.
\<close>

definition world_hello :: world where
  "world_hello =
     \<lparr>files = [''h/.viban-global.yml'' \<mapsto> Doc (JStr ''hello'')],
      clock = (\<lambda>n. ''t''), ticks = 0, uuids = (\<lambda>n. ''u''), drawn = 0\<rparr>"

definition world_old :: world where
  "world_old =
     \<lparr>files = [''h/.viban-global.yml'' \<mapsto> Doc (JObj [(''recentProjects'', JStr ''/old'')])],
      clock = (\<lambda>n. ''t''), ticks = 0, uuids = (\<lambda>n. ''u''), drawn = 0\<rparr>"

section \<open>Documents and values\<close>

lemma of_json_defined: "of_json j \<noteq> Undefined"
  by (cases j) auto

lemma to_yaml_of_json: "to_yaml (of_json j) = j"
proof (induction j)
  case (JArr xs)
  then show ?case by (simp add: map_idI)
next
  case (JObj kvs)
  have "filter (\<lambda>(k, v). v \<noteq> Undefined) (map (\<lambda>(k, v). (k, of_json v)) kvs)
        = map (\<lambda>(k, v). (k, of_json v)) kvs"
    by (induction kvs) (auto simp: of_json_defined)
  moreover have "map (\<lambda>(k, v). (k, to_yaml v)) (map (\<lambda>(k, v). (k, of_json v)) kvs) = kvs"
  proof -
    have "\<And>k v. (k, v) \<in> set kvs \<Longrightarrow> to_yaml (of_json v) = v"
      using JObj by (auto simp: snds.simps)
    then show ?thesis
      by (induction kvs) auto
  qed
  ultimately show ?case by simp
qed simp_all

section \<open>Properties and spreads\<close>

lemma get_set_prop: "get (set_prop k' v kvs) k = (if k = k' then v else get kvs k)"
  by (induction kvs) (auto simp: get_def)

lemma set_show_nat: "set (show_nat n) \<subseteq> set ''0123456789''"
proof (induction n rule: show_nat.induct)
  case (1 n)
  have d: "\<And>m. m < 10 \<Longrightarrow> ''0123456789'' ! m \<in> set ''0123456789''"
    by (rule nth_mem) simp
  show ?case
  proof (cases "n < 10")
    case True
    then show ?thesis using d[of n] by (subst show_nat.simps) simp
  next
    case False
    then show ?thesis using 1 d[of "n mod 10"] by (subst show_nat.simps) simp
  qed
qed

lemma indexed_keys: "(k, v) \<in> set (indexed xs) \<Longrightarrow> set k \<subseteq> set ''0123456789''"
proof -
  assume "(k, v) \<in> set (indexed xs)"
  then have "k \<in> set (map show_nat [0..<length xs])"
    unfolding indexed_def by (rule set_zip_leftD)
  then obtain n where "k = show_nat n" by auto
  then show ?thesis using set_show_nat by blast
qed

lemma get_spread_other:
  "k \<notin> fst ` set b \<Longrightarrow> get (spread a b) k = get a k"
  unfolding spread_def
  by (induction b arbitrary: a) (auto simp: get_set_prop)

lemma tasksFile_not_index: "''tasksFile'' \<notin> fst ` set (indexed xs)"
proof
  assume "''tasksFile'' \<in> fst ` set (indexed xs)"
  then obtain v where "(''tasksFile'', v) \<in> set (indexed xs)" by auto
  from indexed_keys[OF this] show False by simp
qed

lemma tasksFile_of_array:
  "get (spread DEFAULT_CONFIG (indexed xs)) ''tasksFile'' = Str ''tasks.json''"
  by (simp add: get_spread_other tasksFile_not_index) (simp add: DEFAULT_CONFIG_def get_def)

lemma settled_config_not_tasks:
  assumes "settled p w = Some (path, js)"
  shows "path \<noteq> getConfigPath p"
proof
  assume eq: "path = getConfigPath p"
  from assms obtain cfg name where
    c: "files w (getConfigPath p) = Some (Doc cfg)" and
    n: "get (spread DEFAULT_CONFIG (own_props (of_json cfg))) ''tasksFile'' = Str name" and
    pth: "path = path_join p name" and
    t: "files w (path_join p name) = Some (Doc (JArr js))"
    by (auto simp: settled_def split: option.splits content.splits jsval.splits json.splits)
  from eq pth c t have "cfg = JArr js" by simp
  with n have "name = ''tasks.json''" by (simp add: tasksFile_of_array)
  with eq pth show False
    by (simp add: getConfigPath_def path_join_def CONFIG_FILENAME_def)
qed

section \<open>Loading and saving the tasks of a project\<close>

lemma settled_files_only: "files w' = files w \<Longrightarrow> settled p w' = settled p w"
  unfolding settled_def by (simp cong: option.case_cong content.case_cong jsval.case_cong)

lemma settledD:
  assumes "settled p w = Some (path, js)"
  obtains cfg name where
    "files w (getConfigPath p) = Some (Doc cfg)"
    "get (spread DEFAULT_CONFIG (own_props (of_json cfg))) ''tasksFile'' = Str name"
    "path = path_join p name"
    "files w path = Some (Doc (JArr js))"
  using assms
  by (auto simp: settled_def split: option.splits content.splits jsval.splits json.splits)

lemma settled_getTasksPath:
  assumes "settled p w = Some (path, js)"
  shows "getTasksPath p w = (Inr path, w)"
  using assms by (elim settledD) (simp add: getTasksPath_def loadConfig_def)

lemma settled_loadTasks:
  assumes "settled p w = Some (path, js)"
  shows "loadTasks p w = (Inr (map of_json js), w)"
  using assms settled_getTasksPath[OF assms]
  by (elim settledD) (simp add: loadTasks_def)

lemma tmp_not_config: "path_join p name @ ''.tmp'' \<noteq> getConfigPath p"
proof
  assume "path_join p name @ ''.tmp'' = getConfigPath p"
  then have "last (path_join p name @ ''.tmp'') = last (getConfigPath p)" by simp
  then show False by (simp add: getConfigPath_def path_join_def CONFIG_FILENAME_def)
qed

lemma settled_saveTasks:
  assumes "settled p w = Some (path, js)"
  shows "saveTasks p ts w = (Inr (), stored path (map to_json ts) w)"
  using settled_getTasksPath[OF assms]
  by (simp add: saveTasks_def renameSync_def writeFileSync_def stored_def fun_upd_twist)

lemma settled_stored:
  assumes "settled p w = Some (path, js)"
  shows "settled p (stored path js' w) = Some (path, js')"
proof -
  from assms obtain cfg name where
    c: "files w (getConfigPath p) = Some (Doc cfg)" and
    n: "get (spread DEFAULT_CONFIG (own_props (of_json cfg))) ''tasksFile'' = Str name" and
    pth: "path = path_join p name"
    by (elim settledD)
  have 1: "path \<noteq> getConfigPath p" by (rule settled_config_not_tasks[OF assms])
  have 2: "path @ ''.tmp'' \<noteq> getConfigPath p" unfolding pth by (rule tmp_not_config)
  show ?thesis
    using c n 1 2 pth by (simp add: settled_def stored_def)
qed

lemma default_config_roundtrip:
  "spread DEFAULT_CONFIG
     (own_props (of_json (to_yaml (Obj (set_prop ''createdAt'' (Str now) DEFAULT_CONFIG)))))
   = set_prop ''createdAt'' (Str now) DEFAULT_CONFIG"
  by (simp add: DEFAULT_CONFIG_def spread_def)

lemma loadConfig_post:
  assumes "loadConfig p w = (Inr config, wa)"
  obtains cfg where
    "files wa (getConfigPath p) = Some (Doc cfg)"
    "spread DEFAULT_CONFIG (own_props (of_json cfg)) = config"
    "\<And>path. path \<noteq> getConfigPath p \<Longrightarrow> files wa path = files w path"
proof (cases "files w (getConfigPath p)")
  case None
  with assms have
    "wa = saveConfig p (set_prop ''createdAt'' (Str (clock w (ticks w))) DEFAULT_CONFIG)
            (w\<lparr>ticks := Suc (ticks w)\<rparr>)"
    "config = set_prop ''createdAt'' (Str (clock w (ticks w))) DEFAULT_CONFIG"
    by (auto simp: loadConfig_def toISOString_now_def Let_def)
  then show ?thesis
    using that[of "to_yaml (Obj config)"] default_config_roundtrip
    by (simp add: saveConfig_def writeFileSync_def)
next
  case (Some c)
  with assms show ?thesis
    using that by (cases c) (auto simp: loadConfig_def)
qed

lemma getTasksPath_post:
  assumes "getTasksPath p w = (Inr path, wa)"
  obtains cfg name where
    "files wa (getConfigPath p) = Some (Doc cfg)"
    "get (spread DEFAULT_CONFIG (own_props (of_json cfg))) ''tasksFile'' = Str name"
    "path = path_join p name"
    "\<And>q. q \<noteq> getConfigPath p \<Longrightarrow> files wa q = files w q"
proof -
  from assms obtain config where
    l: "loadConfig p w = (Inr config, wa)" and
    g: "get config ''tasksFile'' = Str (drop (length p + 1) path)" "path = path_join p (drop (length p + 1) path)"
    by (auto simp: getTasksPath_def path_join_def split: prod.splits sum.splits jsval.splits)
  from l show ?thesis
    by (rule loadConfig_post) (use g that in auto)
qed

lemma configured_getTasksPath:
  assumes "files w (getConfigPath p) = Some (Doc cfg)"
    and "get (spread DEFAULT_CONFIG (own_props (of_json cfg))) ''tasksFile'' = Str name"
  shows "getTasksPath p w = (Inr (path_join p name), w)"
  using assms by (simp add: getTasksPath_def loadConfig_def)

lemma loadTasks_settles:
  assumes "loadTasks p w = (Inr tasks, w1)"
  obtains path js where "settled p w1 = Some (path, js)" "tasks = map of_json js"
proof -
  from assms obtain path wa where gp: "getTasksPath p w = (Inr path, wa)"
    by (auto simp: loadTasks_def split: prod.splits sum.splits)
  from gp obtain cfg name where
    c: "files wa (getConfigPath p) = Some (Doc cfg)" and
    n: "get (spread DEFAULT_CONFIG (own_props (of_json cfg))) ''tasksFile'' = Str name" and
    pth: "path = path_join p name"
    by (rule getTasksPath_post)
  have gpa: "getTasksPath p wa = (Inr path, wa)"
    unfolding pth by (rule configured_getTasksPath[OF c n])
  show ?thesis
  proof (cases "files wa path")
    case None
    then have ne: "path \<noteq> getConfigPath p" using c by auto
    have ne2: "path @ ''.tmp'' \<noteq> getConfigPath p" unfolding pth by (rule tmp_not_config)
    from None assms gp gpa have
      w1: "w1 = stored path [] wa" and t: "tasks = []"
      by (auto simp: loadTasks_def saveTasks_def renameSync_def writeFileSync_def stored_def
          fun_upd_twist)
    have "settled p w1 = Some (path, [])"
      using c n ne ne2 pth by (simp add: w1 settled_def stored_def)
    with t show ?thesis using that by simp
  next
    case (Some f)
    with assms gp obtain js where
      "f = Doc (JArr js)" "tasks = map of_json js" "w1 = wa"
      by (cases f) (auto simp: loadTasks_def split: jsval.splits json.splits elim: of_json.elims)
    with Some c n pth show ?thesis
      using that[of path js] by (simp add: settled_def)
  qed
qed

lemma getTasksPath_fst:
  "fst (getTasksPath p w) =
     (case files w (getConfigPath p) of
        None \<Rightarrow> Inr (path_join p ''tasks.json'')
      | Some Garbled \<Rightarrow> Inl (Error (''Failed to parse config file: '' @ getConfigPath p))
      | Some (Doc cfg) \<Rightarrow>
          (case get (spread DEFAULT_CONFIG (own_props (of_json cfg))) ''tasksFile'' of
             Str name \<Rightarrow> Inr (path_join p name)
           | _ \<Rightarrow> Inl TypeError))"
  by (auto simp: getTasksPath_def loadConfig_def toISOString_now_def Let_def
      DEFAULT_CONFIG_def get_def
      split: option.splits content.splits jsval.splits prod.splits sum.splits)

lemma getTasksPath_same_file:
  assumes "getTasksPath p w = (Inr path, wa)"
  shows "files wa path = files w path"
proof (cases "files w (getConfigPath p)")
  case None
  with assms have "path = path_join p ''tasks.json''"
    using getTasksPath_fst[of p w] by simp
  then have "path \<noteq> getConfigPath p"
    by (simp add: getConfigPath_def path_join_def CONFIG_FILENAME_def)
  with assms show ?thesis
    by (elim getTasksPath_post) simp
next
  case (Some c)
  with assms have "wa = w"
    by (cases c) (auto simp: getTasksPath_def loadConfig_def split: jsval.splits)
  then show ?thesis by simp
qed

lemma loadTasks_fst:
  "fst (loadTasks p w) =
     (case fst (getTasksPath p w) of
        Inl e \<Rightarrow> Inl e
      | Inr path \<Rightarrow>
          (case files w path of
             None \<Rightarrow> Inr []
           | Some Garbled \<Rightarrow> Inl (Error (''Invalid JSON in tasks file: '' @ path))
           | Some (Doc parsed) \<Rightarrow>
               (case of_json parsed of
                  Arr tasks \<Rightarrow> Inr tasks
                | _ \<Rightarrow> Inl (Error ''Tasks file must contain an array''))))"
proof (cases "getTasksPath p w")
  case (Pair r wa)
  show ?thesis
  proof (cases r)
    case (Inl e)
    with Pair show ?thesis by (simp add: loadTasks_def)
  next
    case (Inr path)
    with Pair have gp: "getTasksPath p w = (Inr path, wa)" by simp
    have same: "files wa path = files w path" by (rule getTasksPath_same_file[OF gp])
    from gp obtain cfg name where
      c: "files wa (getConfigPath p) = Some (Doc cfg)" and
      n: "get (spread DEFAULT_CONFIG (own_props (of_json cfg))) ''tasksFile'' = Str name" and
      pth: "path = path_join p name"
      by (rule getTasksPath_post)
    have gpa: "getTasksPath p wa = (Inr path, wa)"
      unfolding pth by (rule configured_getTasksPath[OF c n])
    show ?thesis
    proof (cases "files w path")
      case None
      with gp gpa same show ?thesis
        by (simp add: loadTasks_def saveTasks_def Let_def)
    next
      case (Some f)
      with gp same show ?thesis
        by (cases f) (auto simp: loadTasks_def split: jsval.splits)
    qed
  qed
qed


lemma loadTasks_absent:
  assumes gp: "getTasksPath p w = (Inr path, wa)" and n: "files w path = None"
  shows "loadTasks p w = (Inr [], stored path [] wa)"
proof -
  from gp obtain cfg name where
    c: "files wa (getConfigPath p) = Some (Doc cfg)" and
    nm: "get (spread DEFAULT_CONFIG (own_props (of_json cfg))) ''tasksFile'' = Str name" and
    pth: "path = path_join p name"
    by (rule getTasksPath_post)
  have gpa: "getTasksPath p wa = (Inr path, wa)"
    unfolding pth by (rule configured_getTasksPath[OF c nm])
  have "files wa path = None" using getTasksPath_same_file[OF gp] n by simp
  with gp gpa show ?thesis
    by (simp add: loadTasks_def saveTasks_def renameSync_def writeFileSync_def stored_def
        fun_upd_twist)
qed


section \<open>Creating a task\<close>

lemma map_rewritten: "map of_json (map to_json ts) = map rewritten ts"
  by (simp add: rewritten_def)

lemma save_after_load:
  assumes l: "loadTasks p w = (Inr tasks, w1)" and f: "files w2 = files w1"
  shows "\<exists>w'. saveTasks p ts w2 = (Inr (), w') \<and>
              loadTasks p w' = (Inr (map rewritten ts), w') \<and>
              clock w' = clock w2 \<and> uuids w' = uuids w2 \<and> drawn w' = drawn w2 \<and>
              ticks w' = ticks w2"
proof -
  from l obtain path js where s: "settled p w1 = Some (path, js)"
    by (rule loadTasks_settles)
  have s2: "settled p w2 = Some (path, js)"
    using s settled_files_only[OF f] by simp
  have "saveTasks p ts w2 = (Inr (), stored path (map to_json ts) w2)"
    by (rule settled_saveTasks[OF s2])
  moreover have "loadTasks p (stored path (map to_json ts) w2) =
      (Inr (map rewritten ts), stored path (map to_json ts) w2)"
    using settled_loadTasks[OF settled_stored[OF s2], of "map to_json ts"]
    unfolding map_rewritten .
  moreover have "clock (stored path (map to_json ts) w2) = clock w2"
    "uuids (stored path (map to_json ts) w2) = uuids w2"
    "drawn (stored path (map to_json ts) w2) = drawn w2"
    "ticks (stored path (map to_json ts) w2) = ticks w2"
    by (simp_all add: stored_def)
  ultimately show ?thesis by blast
qed

text \<open>Loading and saving read the clock at most; they draw no identifier.\<close>

lemma loadConfig_env:
  "clock (snd (loadConfig p w)) = clock w \<and> uuids (snd (loadConfig p w)) = uuids w \<and>
   drawn (snd (loadConfig p w)) = drawn w"
  by (auto simp: loadConfig_def toISOString_now_def saveConfig_def writeFileSync_def Let_def
      split: option.splits content.splits)

lemma getTasksPath_env:
  "clock (snd (getTasksPath p w)) = clock w \<and> uuids (snd (getTasksPath p w)) = uuids w \<and>
   drawn (snd (getTasksPath p w)) = drawn w"
  using loadConfig_env[of p w]
  by (auto simp: getTasksPath_def split: prod.splits sum.splits jsval.splits)

lemma saveTasks_env:
  "clock (snd (saveTasks p ts w)) = clock w \<and> uuids (snd (saveTasks p ts w)) = uuids w \<and>
   drawn (snd (saveTasks p ts w)) = drawn w"
  using getTasksPath_env[of p w]
  by (auto simp: saveTasks_def renameSync_def writeFileSync_def Let_def
      split: prod.splits sum.splits)

lemma loadTasks_env:
  "clock (snd (loadTasks p w)) = clock w \<and> uuids (snd (loadTasks p w)) = uuids w \<and>
   drawn (snd (loadTasks p w)) = drawn w"
proof (cases "getTasksPath p w")
  case (Pair r wa)
  then have c: "clock wa = clock w \<and> uuids wa = uuids w \<and> drawn wa = drawn w"
    using getTasksPath_env[of p w] by simp
  show ?thesis
    using Pair c saveTasks_env[of p "[]" wa]
    by (auto simp: loadTasks_def split: sum.splits option.splits content.splits jsval.splits
        prod.splits)
qed

lemma loadTasks_clock: "clock (snd (loadTasks p w)) = clock w"
  using loadTasks_env[of p w] by simp


lemmas eval_defs =
  loadTasks_def saveTasks_def getTasksPath_def loadConfig_def saveConfig_def getConfigPath_def
  path_join_def CONFIG_FILENAME_def DEFAULT_CONFIG_def spread_def get_def
  writeFileSync_def renameSync_def toISOString_now_def uuidv4_def or_else_def rewritten_def

lemma load_world_one: "fst (loadTasks ''p'' world_one) = Inr [of_json task_one]"
  by (simp add: world_one_def task_one_def eval_defs)

lemma get_map_values:
  "get (map (\<lambda>(k, v). (k, f v)) kvs) k =
     (case map_of kvs k of None \<Rightarrow> Undefined | Some v \<Rightarrow> f v)"
  by (induction kvs) (auto simp: get_def)

lemma get_of_json_props:
  "get (map (\<lambda>(k, v). (k, of_json v)) kvs) k =
     (case map_of kvs k of None \<Rightarrow> Undefined | Some v \<Rightarrow> of_json v)"
  by (rule get_map_values)

text \<open>
  Rewriting changes nothing in a document whose numbers JSON can write, keeps an
  object an object, and neither makes nor unmakes a string.
\<close>

lemma to_json_finite: "finite_numbers j \<Longrightarrow> to_json (of_json j) = j"
proof (induction j)
  case (JArr xs)
  then show ?case by (simp add: list_all_iff map_idI)
next
  case (JObj kvs)
  have "filter (\<lambda>(k, v). v \<noteq> Undefined) (map (\<lambda>(k, v). (k, of_json v)) kvs)
        = map (\<lambda>(k, v). (k, of_json v)) kvs"
    by (induction kvs) (auto simp: of_json_defined)
  moreover have "map (\<lambda>(k, v). (k, to_json v)) (map (\<lambda>(k, v). (k, of_json v)) kvs) = kvs"
  proof -
    have "\<And>k v. (k, v) \<in> set kvs \<Longrightarrow> to_json (of_json v) = v"
      using JObj by (auto simp: snds.simps list_all_iff)
    then show ?thesis
      by (induction kvs) auto
  qed
  ultimately show ?case by simp
qed simp_all

lemma rewritten_finite: "finite_numbers j \<Longrightarrow> rewritten (of_json j) = of_json j"
  by (simp add: rewritten_def to_json_finite)

lemma rewritten_parsed_object:
  "rewritten (of_json (JObj kvs)) = Obj (map (\<lambda>(k, v). (k, rewritten (of_json v))) kvs)"
proof -
  have "filter (\<lambda>(k, v). v \<noteq> Undefined) (map (\<lambda>(k, v). (k, of_json v)) kvs)
        = map (\<lambda>(k, v). (k, of_json v)) kvs"
    by (induction kvs) (auto simp: of_json_defined)
  then show ?thesis
    by (simp add: rewritten_def comp_def case_prod_unfold)
qed

lemma rewritten_Str: "rewritten (of_json j) = Str s \<longleftrightarrow> of_json j = Str s"
  by (cases j) (auto simp: rewritten_def)

lemma rewritten_is_object: "is_object (rewritten (of_json j)) = is_object (of_json j)"
  by (cases j) (auto simp: rewritten_def)

lemma rewritten_id_of:
  "id_of (rewritten (of_json j)) = Str s \<longleftrightarrow> id_of (of_json j) = Str s"
proof (cases j)
  case (JObj kvs)
  have "get (map (\<lambda>(k, v). (k, rewritten (of_json v))) kvs) ''id'' = Str s \<longleftrightarrow>
        get (map (\<lambda>(k, v). (k, of_json v)) kvs) ''id'' = Str s"
    unfolding get_map_values by (cases "map_of kvs ''id''") (simp_all add: rewritten_Str)
  then show ?thesis
    unfolding JObj rewritten_parsed_object by (simp add: id_of_def)
qed (auto simp: rewritten_def id_of_def)


section \<open>Updating and deleting a task\<close>

lemma id_of_object: "is_object t \<Longrightarrow> read_prop t ''id'' = Inr (id_of t)"
  by (cases t) (auto simp: id_of_def)

lemma findIndex_id_none:
  "list_all is_object tasks \<Longrightarrow> Str taskId \<notin> set (map id_of tasks) \<Longrightarrow>
   findIndex_id tasks taskId = Inr None"
  by (induction tasks) (auto simp: id_of_object)

lemma findIndex_id_found:
  "list_all is_object tasks \<Longrightarrow> distinct (map id_of tasks) \<Longrightarrow> i < length tasks \<Longrightarrow>
   id_of (tasks ! i) = Str taskId \<Longrightarrow> findIndex_id tasks taskId = Inr (Some i)"
proof (induction tasks arbitrary: i)
  case Nil
  then show ?case by simp
next
  case (Cons t ts)
  show ?case
  proof (cases i)
    case 0
    with Cons.prems show ?thesis by (simp add: id_of_object)
  next
    case (Suc j)
    with Cons.prems have "ts ! j \<in> set ts" "id_of (ts ! j) = Str taskId" by simp_all
    then have "Str taskId \<in> id_of ` set ts" by (metis imageI)
    with Cons.prems have "id_of t \<noteq> Str taskId" by auto
    with Cons Suc show ?thesis by (simp add: id_of_object)
  qed
qed

lemma find_id_none:
  "list_all is_object tasks \<Longrightarrow> Str taskId \<notin> set (map id_of tasks) \<Longrightarrow>
   find_id tasks taskId = Inr Null"
  by (induction tasks) (auto simp: id_of_object)

lemma storageUpdateTask_found:
  assumes l: "loadTasks p w = (Inr tasks, w1)"
    and f: "findIndex_id tasks taskId = Inr (Some i)"
  shows "\<exists>w'. storageUpdateTask p taskId updates w
                = (Inr (updated_task (tasks ! i) updates (clock w (ticks w1))), w') \<and>
              loadTasks p w' =
                (Inr (map rewritten
                        (tasks[i := updated_task (tasks ! i) updates (clock w (ticks w1))])), w')"
proof -
  define new where "new = updated_task (tasks ! i) updates (clock w (ticks w1))"
  have c: "clock w1 = clock w" using loadTasks_clock[of p w] l by simp
  from save_after_load[OF l, of "w1\<lparr>ticks := Suc (ticks w1)\<rparr>" "tasks[i := new]"]
  obtain w' where
    s: "saveTasks p (tasks[i := new]) (w1\<lparr>ticks := Suc (ticks w1)\<rparr>) = (Inr (), w')" and
    r: "loadTasks p w' = (Inr (map rewritten (tasks[i := new])), w')"
    by auto
  have "storageUpdateTask p taskId updates w = (Inr new, w')"
    using l f s c
    by (simp add: storageUpdateTask_def toISOString_now_def new_def updated_task_def)
  with r show ?thesis
    unfolding new_def by auto
qed

lemma storageUpdateTask_unknown:
  assumes l: "loadTasks p w = (Inr tasks, w1)"
    and f: "findIndex_id tasks taskId = Inr None"
  shows "storageUpdateTask p taskId updates w = (Inr Null, w1)"
  using l f by (simp add: storageUpdateTask_def)

lemma loadTasks_again:
  assumes "loadTasks p w = (Inr tasks, w1)"
  shows "loadTasks p w1 = (Inr tasks, w1)"
  using assms by (elim loadTasks_settles) (simp add: settled_loadTasks)

lemma storageDeleteTask_found:
  assumes l: "loadTasks p w = (Inr tasks, w1)"
    and f: "findIndex_id tasks taskId = Inr (Some i)"
  shows "\<exists>w'. storageDeleteTask p taskId w = (Inr True, w') \<and>
              loadTasks p w' = (Inr (map rewritten (splice1 i tasks)), w')"
proof -
  from save_after_load[OF l refl, of "splice1 i tasks"] obtain w' where
    s: "saveTasks p (splice1 i tasks) w1 = (Inr (), w')" and
    r: "loadTasks p w' = (Inr (map rewritten (splice1 i tasks)), w')"
    by auto
  have "storageDeleteTask p taskId w = (Inr True, w')"
    using l f s by (simp add: storageDeleteTask_def)
  with r show ?thesis by auto
qed

text \<open>What was loaded keeps its ids and stays a list of objects when it is rewritten.\<close>

lemma loaded_parsed:
  assumes "loadTasks p w = (Inr tasks, w1)"
  shows "\<forall>t\<in>set tasks. t \<in> range of_json"
  using assms by (elim loadTasks_settles) auto

lemma rewritten_ids:
  assumes "\<forall>t\<in>set ts. t \<in> range of_json"
  shows "Str s \<in> set (map id_of (map rewritten ts)) \<longleftrightarrow> Str s \<in> set (map id_of ts)"
proof -
  have "id_of (rewritten t) = Str s \<longleftrightarrow> id_of t = Str s" if "t \<in> set ts" for t
  proof -
    from assms that obtain j where "t = of_json j" by auto
    then show ?thesis by (simp add: rewritten_id_of)
  qed
  then have "(\<exists>t\<in>set ts. id_of (rewritten t) = Str s) \<longleftrightarrow> (\<exists>t\<in>set ts. id_of t = Str s)"
    by blast
  then show ?thesis by (simp add: image_iff eq_commute)
qed

lemma rewritten_objects:
  assumes "\<forall>t\<in>set ts. t \<in> range of_json"
  shows "list_all is_object (map rewritten ts) = list_all is_object ts"
proof -
  have "is_object (rewritten t) = is_object t" if "t \<in> set ts" for t
  proof -
    from assms that obtain j where "t = of_json j" by auto
    then show ?thesis by (simp add: rewritten_is_object)
  qed
  then show ?thesis by (simp add: list_all_iff)
qed

lemma storageDeleteTask_unknown:
  assumes l: "loadTasks p w = (Inr tasks, w1)"
    and f: "findIndex_id tasks taskId = Inr None"
  shows "storageDeleteTask p taskId w = (Inr False, w1)"
  using l f by (simp add: storageDeleteTask_def)

lemma get_spread:
  "distinct (map fst b) \<Longrightarrow>
   get (spread a b) k = (if k \<in> fst ` set b then get b k else get a k)"
proof (induction b arbitrary: a)
  case Nil
  then show ?case by (simp add: spread_def)
next
  case (Cons kv b)
  obtain k' v where kv: "kv = (k', v)" by (cases kv)
  have s: "spread a (kv # b) = spread (set_prop k' v a) b"
    by (simp add: spread_def kv)
  from Cons.prems kv have d: "distinct (map fst b)" "k' \<notin> fst ` set b" by auto
  show ?case
  proof (cases "k \<in> fst ` set b")
    case True
    with d have "k \<noteq> k'" by auto
    then have "get (kv # b) k = get b k" by (simp add: get_def kv)
    with True Cons.IH[OF d(1), of "set_prop k' v a"] show ?thesis
      by (simp add: s)
  next
    case False
    then have "get (spread a (kv # b)) k = get (set_prop k' v a) k"
      using Cons.IH[OF d(1), of "set_prop k' v a"] by (simp add: s)
    also have "\<dots> = (if k = k' then v else get a k)" by (rule get_set_prop)
    finally show ?thesis using False by (auto simp: kv get_def)
  qed
qed

lemma snd_load_world_one: "snd (loadTasks ''p'' world_one) = world_one"
  by (simp add: world_one_def task_one_def eval_defs)

lemma join_COLUMNS: "join '', '' COLUMNS = ''backlog, todo, review, done''"
  by (simp add: COLUMNS_def)

lemma id_not_in_rest:
  assumes "distinct (map f xs)" and "i < length xs"
  shows "f (xs ! i) \<notin> f ` set (splice1 i xs)"
proof -
  have "xs = take i xs @ xs ! i # drop (Suc i) xs"
    using assms(2) by (rule id_take_nth_drop)
  then have "distinct (map f (take i xs @ xs ! i # drop (Suc i) xs))"
    using assms(1) by simp
  then show ?thesis by (auto simp: splice1_def)
qed

lemma splice1_all: "list_all P xs \<Longrightarrow> list_all P (splice1 i xs)"
  by (auto simp: splice1_def list_all_iff dest: in_set_takeD in_set_dropD)


section \<open>The project registry\<close>

lemma remove_first:
  "(case indexOf xs v of None \<Rightarrow> xs | Some i \<Rightarrow> splice1 i xs) = remove1 v xs"
  by (induction xs) (auto simp: splice1_def split: option.splits)

lemma pushRecent_remove1: "pushRecent v xs = take 10 (v # remove1 v xs)"
  by (simp add: pushRecent_def remove_first)

lemma pushRecent_spec: "distinct xs \<Longrightarrow> pushRecent v xs = recent_spec v xs"
  by (simp add: pushRecent_remove1 recent_spec_def distinct_remove1_removeAll)

lemma recent_spec_distinct: "distinct xs \<Longrightarrow> distinct (recent_spec v xs)"
proof -
  assume "distinct xs"
  then have "distinct (v # removeAll v xs)" by (simp add: distinct_removeAll)
  then show ?thesis unfolding recent_spec_def by (rule distinct_take)
qed

lemma recent_spec_length: "length (recent_spec v xs) \<le> 10"
  by (simp add: recent_spec_def)

lemma recent_spec_hd: "hd (recent_spec v xs) = v"
  by (simp add: recent_spec_def)

text \<open>Values that a parser can have produced are written and read back unchanged.\<close>

lemma parsed_roundtrip: "v \<in> range of_json \<Longrightarrow> of_json (to_yaml v) = v"
  by (auto simp: to_yaml_of_json)

lemma parsed_Arr: "(\<forall>x\<in>set xs. x \<in> range of_json) \<Longrightarrow> Arr xs \<in> range of_json"
proof -
  assume a: "\<forall>x\<in>set xs. x \<in> range of_json"
  then have "map of_json (map to_yaml xs) = xs"
    by (simp add: parsed_roundtrip map_idI)
  then have "of_json (JArr (map to_yaml xs)) = Arr xs" by simp
  then show ?thesis by (metis rangeI)
qed

lemma parsed_Obj:
  assumes "\<forall>(k, v)\<in>set kvs. v \<in> range of_json"
  shows "Obj kvs \<in> range of_json"
proof -
  have "map (\<lambda>(k, v). (k, of_json v)) (map (\<lambda>(k, v). (k, to_yaml v)) kvs) = kvs"
    using assms by (induction kvs) (auto simp: parsed_roundtrip)
  then have "of_json (JObj (map (\<lambda>(k, v). (k, to_yaml v)) kvs)) = Obj kvs" by simp
  then show ?thesis by (metis rangeI)
qed

lemma parsed_ObjD:
  assumes "Obj kvs \<in> range of_json"
  shows "\<forall>(k, v)\<in>set kvs. v \<in> range of_json"
proof -
  from assms obtain j where "of_json j = Obj kvs" by auto
  then obtain jkvs where "kvs = map (\<lambda>(k, v). (k, of_json v)) jkvs"
    by (cases j) auto
  then show ?thesis by auto
qed

lemma parsed_ArrD: "Arr xs \<in> range of_json \<Longrightarrow> \<forall>x\<in>set xs. x \<in> range of_json"
proof -
  assume "Arr xs \<in> range of_json"
  then obtain j where "of_json j = Arr xs" by auto
  then obtain js where "xs = map of_json js" by (cases j) auto
  then show ?thesis by auto
qed

lemma set_prop_values:
  "(\<forall>(k, v)\<in>set kvs. P v) \<Longrightarrow> P x \<Longrightarrow> (\<forall>(k, v)\<in>set (set_prop key x kvs). P v)"
  by (induction kvs) (auto split: if_splits)

lemma get_values: "(\<forall>(k, v)\<in>set kvs. P v) \<Longrightarrow> get kvs k = Undefined \<or> P (get kvs k)"
  by (induction kvs) (auto simp: get_def)

lemma loadGlobalConfig_parsed: "loadGlobalConfig home w \<in> range of_json"
proof -
  have "Obj [] = of_json (JObj [])" by simp
  then have e: "Obj [] \<in> range of_json" by (metis rangeI)
  then show ?thesis
    by (auto simp: loadGlobalConfig_def or_else_def split: option.splits content.splits)
qed

lemma pushRecent_set: "set (pushRecent v xs) \<subseteq> insert v (set xs)"
  unfolding pushRecent_remove1
  by (auto dest!: in_set_takeD dest: notin_set_remove1)


lemma Str_parsed: "Str s \<in> range of_json"
proof -
  have "of_json (JStr s) = Str s" by simp
  then show ?thesis by (metis rangeI)
qed

lemma recent_parsed:
  assumes c: "loadGlobalConfig home w = Obj config"
    and r: "getRecentProjects home w = Inr (Arr recent)"
  shows "or_else (get config ''recentProjects'') (Arr []) = Arr recent"
    and "\<forall>x\<in>set recent. x \<in> range of_json"
proof -
  show o: "or_else (get config ''recentProjects'') (Arr []) = Arr recent"
    using r by (simp add: getRecentProjects_def c)
  have "Obj config \<in> range of_json" using loadGlobalConfig_parsed[of home w] c by simp
  then have v: "\<forall>(k, v)\<in>set config. v \<in> range of_json" by (rule parsed_ObjD)
  show "\<forall>x\<in>set recent. x \<in> range of_json"
  proof (cases "truthy (get config ''recentProjects'')")
    case True
    with o have g: "get config ''recentProjects'' = Arr recent" by (simp add: or_else_def)
    from get_values[of config "\<lambda>v. v \<in> range of_json" "''recentProjects''"] v g
    have "Arr recent \<in> range of_json" by auto
    then show ?thesis by (rule parsed_ArrD)
  next
    case False
    with o have "recent = []" by (simp add: or_else_def)
    then show ?thesis by simp
  qed
qed

lemma setLastProjectPath_step:
  assumes c: "loadGlobalConfig home w = Obj config"
    and r: "getRecentProjects home w = Inr (Arr recent)"
  shows "\<exists>w' config'.
           setLastProjectPath home p w = (Inr (), w') \<and>
           loadGlobalConfig home w' = Obj config' \<and>
           getRecentProjects home w' = Inr (Arr (pushRecent (Str p) recent)) \<and>
           getLastProjectPath home w' = Inr (Str p)"
proof -
  define config1 where "config1 = set_prop ''lastProjectPath'' (Str p) config"
  define config2 where
    "config2 = set_prop ''recentProjects'' (Arr (pushRecent (Str p) recent)) config1"
  define w' where "w' = saveGlobalConfig home (Obj config2) w"
  note rp = recent_parsed[OF c r]
  have g1: "get config1 ''recentProjects'' = get config ''recentProjects''"
    by (simp add: config1_def get_set_prop)
  have s: "setLastProjectPath home p w = (Inr (), w')"
    using c rp(1) g1
    by (simp add: setLastProjectPath_def config1_def[symmetric] config2_def w'_def)
  have "Obj config \<in> range of_json" using loadGlobalConfig_parsed[of home w] c by simp
  then have v: "\<forall>(k, v)\<in>set config. v \<in> range of_json" by (rule parsed_ObjD)
  have v1: "\<forall>(k, v)\<in>set config1. v \<in> range of_json"
    unfolding config1_def by (rule set_prop_values[OF v Str_parsed])
  have "\<forall>x\<in>set (pushRecent (Str p) recent). x \<in> range of_json"
    using pushRecent_set[of "Str p" recent] rp(2) Str_parsed by auto
  then have "Arr (pushRecent (Str p) recent) \<in> range of_json" by (rule parsed_Arr)
  with v1 have "\<forall>(k, v)\<in>set config2. v \<in> range of_json"
    unfolding config2_def by (rule set_prop_values)
  then have "Obj config2 \<in> range of_json" by (rule parsed_Obj)
  then have rt: "of_json (to_yaml (Obj config2)) = Obj config2" by (rule parsed_roundtrip)
  have l: "loadGlobalConfig home w' = Obj config2"
    unfolding w'_def loadGlobalConfig_def saveGlobalConfig_def writeFileSync_def
    using rt by (simp add: or_else_def)
  have "get config2 ''recentProjects'' = Arr (pushRecent (Str p) recent)"
    "get config2 ''lastProjectPath'' = Str p"
    by (simp_all add: config2_def config1_def get_set_prop)
  then have "getRecentProjects home w' = Inr (Arr (pushRecent (Str p) recent))"
    "getLastProjectPath home w' = Inr (Str p)"
    by (simp_all add: getRecentProjects_def getLastProjectPath_def l or_else_def)
  with s l show ?thesis by blast
qed

lemma setLastProjectPaths_run:
  assumes "loadGlobalConfig home w = Obj config"
    and "getRecentProjects home w = Inr (Arr recent)"
    and "distinct recent"
  shows "\<exists>w' config'.
           setLastProjectPaths home paths w = (Inr (), w') \<and>
           loadGlobalConfig home w' = Obj config' \<and>
           getRecentProjects home w' =
             Inr (Arr (fold (\<lambda>p. recent_spec (Str p)) paths recent)) \<and>
           (paths \<noteq> [] \<longrightarrow> getLastProjectPath home w' = Inr (Str (last paths)))"
  using assms
proof (induction paths arbitrary: w config recent)
  case Nil
  then show ?case by simp
next
  case (Cons p ps)
  from setLastProjectPath_step[OF Cons.prems(1,2), of p] obtain w1 config1 where
    s: "setLastProjectPath home p w = (Inr (), w1)" and
    c1: "loadGlobalConfig home w1 = Obj config1" and
    r1: "getRecentProjects home w1 = Inr (Arr (recent_spec (Str p) recent))" and
    l1: "getLastProjectPath home w1 = Inr (Str p)"
    by (auto simp: pushRecent_spec[OF Cons.prems(3)])
  have d1: "distinct (recent_spec (Str p) recent)"
    by (rule recent_spec_distinct[OF Cons.prems(3)])
  from Cons.IH[OF c1 r1 d1] obtain w' config' where
    "setLastProjectPaths home ps w1 = (Inr (), w')"
    "loadGlobalConfig home w' = Obj config'"
    "getRecentProjects home w' =
       Inr (Arr (fold (\<lambda>p. recent_spec (Str p)) ps (recent_spec (Str p) recent)))"
    "ps \<noteq> [] \<longrightarrow> getLastProjectPath home w' = Inr (Str (last ps))"
    by blast
  with s l1 show ?case
    by (cases "ps = []") auto
qed


lemma fold_recent_distinct:
  "distinct recent \<Longrightarrow> distinct (fold (\<lambda>p. recent_spec (Str p)) paths recent)"
  by (induction paths arbitrary: recent) (simp_all add: recent_spec_distinct)

lemma fold_recent_last:
  assumes "paths \<noteq> []"
  shows "fold (\<lambda>p. recent_spec (Str p)) paths recent =
           recent_spec (Str (last paths)) (fold (\<lambda>p. recent_spec (Str p)) (butlast paths) recent)"
proof -
  have "paths = butlast paths @ [last paths]" using assms by simp
  then have "fold (\<lambda>p. recent_spec (Str p)) paths recent =
      fold (\<lambda>p. recent_spec (Str p)) (butlast paths @ [last paths]) recent"
    by simp
  then show ?thesis by (simp only: fold_append fold_simps comp_def id_def)
qed

lemma scenario_a_b_a:
  assumes "a \<noteq> b"
  shows "\<exists>rest. recent_spec a (recent_spec b (recent_spec a recent)) = a # b # rest \<and>
                a \<notin> set rest"
proof -
  define ys where "ys = recent_spec a recent"
  define rest where "rest = take 8 (removeAll a (take 9 (removeAll b ys)))"
  have "recent_spec b ys = b # take 9 (removeAll b ys)"
    by (simp add: recent_spec_def)
  then have "recent_spec a (recent_spec b ys) = a # b # rest"
    using assms by (simp add: recent_spec_def rest_def)
  moreover have "a \<notin> set rest"
    unfolding rest_def by (auto dest: in_set_takeD)
  ultimately show ?thesis unfolding ys_def by blast
qed


section \<open>C1: a task without a title\<close>

text \<open>
  C1 says that \<open>createTask\<close> with an absent or empty title fails and persists
  nothing. \<open>createTask\<close> has no check of the title. Called with the input
  \<open>{title: ''}\<close>, which the MCP tool \<open>create_task\<close> passes on (its schema
  \<open>z.string()\<close> admits the empty string), in the project \<open>world_one\<close>, it
  returns the new task with the empty title, and the task is in the collection read
  back afterwards.
\<close>

theorem createTask_accepts_empty_title:
  "fst (createTask ''p'' (Obj [(''title'', Str [])]) world_one) =
     Inr (Obj [(''id'', Str ''u2''), (''title'', Str []), (''description'', Undefined),
               (''column'', Str ''backlog''), (''priority'', Str ''medium''),
               (''createdAt'', Str ''t1''), (''updatedAt'', Str ''t1'')]) \<and>
   fst (loadTasks ''p'' (snd (createTask ''p'' (Obj [(''title'', Str [])]) world_one))) =
     Inr [of_json task_one,
          Obj [(''id'', Str ''u2''), (''title'', Str []),
               (''column'', Str ''backlog''), (''priority'', Str ''medium''),
               (''createdAt'', Str ''t1''), (''updatedAt'', Str ''t1'')]]"
  by (simp add: createTask_def world_one_def task_one_def eval_defs)

text \<open>
  The sibling path does check: the HTTP route \<open>POST /api/tasks\<close> answers
  \<open>Title required\<close> with status 400 for every body that has no title or an empty
  one, and answers status 500 for the body \<open>null\<close>; in both cases it leaves the
  world as it was.
\<close>

lemma POST_tasks_requires_title:
  "body \<noteq> JNull \<Longrightarrow> \<not> truthy (get (own_props (of_json body)) ''title'') \<Longrightarrow>
   handleApi_POST_tasks p body w = (sendError ''Title required'' 400, w)"
  by (cases body) (auto simp: handleApi_POST_tasks_def get_def)

lemma POST_tasks_empty_title:
  "map_of kvs ''title'' = None \<or> map_of kvs ''title'' = Some (JStr []) \<Longrightarrow>
   handleApi_POST_tasks p (JObj kvs) w = (sendError ''Title required'' 400, w)"
  by (auto simp: handleApi_POST_tasks_def get_of_json_props)

lemma POST_tasks_null_body:
  "handleApi_POST_tasks p JNull w = (sendError ''Internal server error'' 500, w)"
  by (simp add: handleApi_POST_tasks_def)


section \<open>C2: the created task\<close>





section \<open>C3: moving a task\<close>

text \<open>
  C3: for every id and every value \<open>toColumn\<close> that is not one of the four column
  names, \<open>moveTask\<close> fails with an error whose message names the value and lists
  \<open>backlog, todo, review, done\<close>, and the world is left exactly as it was. For one
  of the four names it is \<open>updateTask\<close> with the update \<open>{column: toColumn}\<close>:
  it returns \<open>null\<close> and leaves the collection as it is when no stored task has the
  id, and otherwise returns the task with \<open>column\<close> set to \<open>toColumn\<close>,
  \<open>updatedAt\<close> refreshed and every other key unchanged, replacing only that
  element of the collection, which is then written back and reads as \<open>rewritten\<close>.
\<close>

theorem moveTask_spec:
  "(toColumn \<notin> Str ` set COLUMNS \<longrightarrow>
      moveTask p taskId toColumn w =
        (Inl (Error (''Invalid column: '' @ to_string toColumn @
                     ''. Must be one of: backlog, todo, review, done'')), w)) \<and>
   (toColumn \<in> Str ` set COLUMNS \<longrightarrow>
      moveTask p taskId toColumn w = updateTask p taskId (Obj [(''column'', toColumn)]) w) \<and>
   (toColumn \<in> Str ` set COLUMNS \<and> fst (loadTasks p w) = Inr tasks \<and>
    list_all is_object tasks \<and> Str taskId \<notin> set (map id_of tasks) \<longrightarrow>
      moveTask p taskId toColumn w = (Inr Null, snd (loadTasks p w)) \<and>
      fst (loadTasks p (snd (loadTasks p w))) = Inr tasks) \<and>
   (\<forall>i old. toColumn \<in> Str ` set COLUMNS \<and> fst (loadTasks p w) = Inr tasks \<and>
      list_all is_object tasks \<and> distinct (map id_of tasks) \<and>
      i < length tasks \<and> tasks ! i = Obj old \<and> get old ''id'' = Str taskId \<longrightarrow>
      (\<exists>new w'.
         moveTask p taskId toColumn w = (Inr (Obj new), w') \<and>
         get new ''column'' = toColumn \<and>
         (\<forall>k. k \<noteq> ''column'' \<longrightarrow> k \<noteq> ''updatedAt'' \<longrightarrow> get new k = get old k) \<and>
         get new ''updatedAt'' = Str (clock w (ticks (snd (loadTasks p w)))) \<and>
         loadTasks p w' = (Inr (map rewritten (tasks[i := Obj new])), w') \<and>
         ((\<forall>t\<in>set tasks. rewritten t = t) \<longrightarrow>
            loadTasks p w' = (Inr (tasks[i := rewritten (Obj new)]), w'))))"
  (is "?invalid \<and> ?valid \<and> ?unknown \<and> ?known")
proof -
  have 1: ?invalid
    by (simp add: moveTask_def join_COLUMNS)
  have 2: ?valid
    by (simp add: moveTask_def updateTask_def)
  have 3: ?unknown
  proof
    assume h: "toColumn \<in> Str ` set COLUMNS \<and> fst (loadTasks p w) = Inr tasks \<and>
      list_all is_object tasks \<and> Str taskId \<notin> set (map id_of tasks)"
    then obtain w1 where l: "loadTasks p w = (Inr tasks, w1)"
      by (cases "loadTasks p w") simp
    from h have f: "findIndex_id tasks taskId = Inr None"
      by (simp add: findIndex_id_none)
    from storageUpdateTask_unknown[OF l f] h
    show "moveTask p taskId toColumn w = (Inr Null, snd (loadTasks p w)) \<and>
        fst (loadTasks p (snd (loadTasks p w))) = Inr tasks"
      by (simp add: moveTask_def l loadTasks_again[OF l])
  qed
  have 4: ?known
  proof (intro allI impI)
    fix i old
    assume h: "toColumn \<in> Str ` set COLUMNS \<and> fst (loadTasks p w) = Inr tasks \<and>
        list_all is_object tasks \<and> distinct (map id_of tasks) \<and>
        i < length tasks \<and> tasks ! i = Obj old \<and> get old ''id'' = Str taskId"
    then obtain w1 where l: "loadTasks p w = (Inr tasks, w1)"
      by (cases "loadTasks p w") simp
    from h have "id_of (tasks ! i) = Str taskId" by (simp add: id_of_def)
    with h have f: "findIndex_id tasks taskId = Inr (Some i)"
      by (simp add: findIndex_id_found)
    define new where
      "new = set_prop ''updatedAt'' (Str (clock w (ticks w1))) (set_prop ''column'' toColumn old)"
    have u: "updated_task (tasks ! i) (Obj [(''column'', toColumn)]) (clock w (ticks w1)) = Obj new"
      using h by (simp add: updated_task_def new_def spread_def)
    from storageUpdateTask_found[OF l f, of "Obj [(''column'', toColumn)]"] h obtain w' where
      r: "moveTask p taskId toColumn w = (Inr (Obj new), w')"
         "loadTasks p w' = (Inr (map rewritten (tasks[i := Obj new])), w')"
      unfolding u moveTask_def by auto
    have "get new ''column'' = toColumn"
      "\<forall>k. k \<noteq> ''column'' \<longrightarrow> k \<noteq> ''updatedAt'' \<longrightarrow> get new k = get old k"
      "get new ''updatedAt'' = Str (clock w (ticks (snd (loadTasks p w))))"
      by (simp_all add: new_def get_set_prop l)
    moreover note r
    moreover have "(\<forall>t\<in>set tasks. rewritten t = t) \<longrightarrow>
              loadTasks p w' = (Inr (tasks[i := rewritten (Obj new)]), w')"
      using r(2) by (auto simp: map_update map_idI)
    ultimately show "\<exists>new w'.
           moveTask p taskId toColumn w = (Inr (Obj new), w') \<and>
           get new ''column'' = toColumn \<and>
           (\<forall>k. k \<noteq> ''column'' \<longrightarrow> k \<noteq> ''updatedAt'' \<longrightarrow> get new k = get old k) \<and>
           get new ''updatedAt'' = Str (clock w (ticks (snd (loadTasks p w)))) \<and>
           loadTasks p w' = (Inr (map rewritten (tasks[i := Obj new])), w') \<and>
           ((\<forall>t\<in>set tasks. rewritten t = t) \<longrightarrow>
              loadTasks p w' = (Inr (tasks[i := rewritten (Obj new)]), w'))"
      by blast
  qed
  from 1 2 3 4 show ?thesis by (intro conjI)
qed


theorem moveTask_spec_witness:
  "moveTask ''p'' ''u1'' (Str ''urgent'') world_one =
     (Inl (Error ''Invalid column: urgent. Must be one of: backlog, todo, review, done''),
      world_one) \<and>
   moveTask ''p'' ''u9'' (Str ''todo'') world_one = (Inr Null, world_one) \<and>
   (\<exists>new w'.
      moveTask ''p'' ''u1'' (Str ''review'') world_one = (Inr (Obj new), w') \<and>
      get new ''column'' = Str ''review'' \<and> get new ''title'' = Str ''Implement login'' \<and>
      get new ''updatedAt'' = Str ''t1'' \<and>
      loadTasks ''p'' w' = (Inr [rewritten (Obj new)], w'))"
proof -
  let ?old = "own_props (of_json task_one)"
  have l: "fst (loadTasks ''p'' world_one) = Inr [of_json task_one]"
    by (rule load_world_one)
  have a: "Str ''urgent'' \<notin> Str ` set COLUMNS" by (simp add: COLUMNS_def)
  have b: "Str ''todo'' \<in> Str ` set COLUMNS \<and>
           fst (loadTasks ''p'' world_one) = Inr [of_json task_one] \<and>
           list_all is_object [of_json task_one] \<and>
           Str ''u9'' \<notin> set (map id_of [of_json task_one])"
    using l by (simp add: COLUMNS_def task_one_def id_of_def get_def)
  have c: "Str ''review'' \<in> Str ` set COLUMNS \<and>
           fst (loadTasks ''p'' world_one) = Inr [of_json task_one] \<and>
           list_all is_object [of_json task_one] \<and> distinct (map id_of [of_json task_one]) \<and>
           0 < length [of_json task_one] \<and> [of_json task_one] ! 0 = Obj ?old \<and>
           get ?old ''id'' = Str ''u1''"
    using l by (simp add: COLUMNS_def task_one_def get_def)
  have 1: "moveTask ''p'' ''u1'' (Str ''urgent'') world_one =
     (Inl (Error ''Invalid column: urgent. Must be one of: backlog, todo, review, done''),
      world_one)"
    using moveTask_spec[of "Str ''urgent''" "''p''" "''u1''" world_one "[]", THEN conjunct1] a
    by simp
  have 2: "moveTask ''p'' ''u9'' (Str ''todo'') world_one = (Inr Null, world_one)"
    using moveTask_spec[of "Str ''todo''" "''p''" "''u9''" world_one "[of_json task_one]",
        THEN conjunct2, THEN conjunct2, THEN conjunct1] b
    by (simp add: snd_load_world_one)
  from moveTask_spec[of "Str ''review''" "''p''" "''u1''" world_one "[of_json task_one]",
        THEN conjunct2, THEN conjunct2, THEN conjunct2, rule_format, OF c]
  obtain new w' where
    "moveTask ''p'' ''u1'' (Str ''review'') world_one = (Inr (Obj new), w')"
    "get new ''column'' = Str ''review''" "get new ''title'' = Str ''Implement login''"
    "get new ''updatedAt'' = Str ''t1''"
    "loadTasks ''p'' w' = (Inr [rewritten (Obj new)], w')"
    by (auto simp: get_def task_one_def snd_load_world_one world_one_def)
  with 1 2 show ?thesis by blast
qed


section \<open>C4: updating a task\<close>

text \<open>
  C4 says that \<open>updateTask\<close> leaves every field that is not supplied unchanged.
  The code writes \<open>{...task, ...updates, updatedAt}\<close>, and the spread also copies a
  key that holds \<open>undefined\<close>. The MCP tool \<open>update_task\<close> calls
  \<open>updateTask(id, {title, description, priority})\<close> with \<open>undefined\<close> for every
  argument its caller left out. For a caller that gives the priority only, in the
  project \<open>world_one\<close>, the returned task has lost its title, and the stored task no
  longer has the key \<open>title\<close>.
\<close>

theorem updateTask_undefined_key:
  "fst (loadTasks ''p'' world_one) =
     Inr [Obj [(''id'', Str ''u1''), (''title'', Str ''Implement login''),
               (''column'', Str ''backlog''), (''priority'', Str ''medium''),
               (''createdAt'', Str ''t0''), (''updatedAt'', Str ''t0'')]] \<and>
   fst (updateTask ''p'' ''u1''
          (Obj [(''title'', Undefined), (''description'', Undefined), (''priority'', Str ''high'')])
          world_one) =
     Inr (Obj [(''id'', Str ''u1''), (''title'', Undefined), (''column'', Str ''backlog''),
               (''priority'', Str ''high''), (''createdAt'', Str ''t0''),
               (''updatedAt'', Str ''t1''), (''description'', Undefined)]) \<and>
   fst (loadTasks ''p'' (snd (updateTask ''p'' ''u1''
          (Obj [(''title'', Undefined), (''description'', Undefined), (''priority'', Str ''high'')])
          world_one))) =
     Inr [Obj [(''id'', Str ''u1''), (''column'', Str ''backlog''),
               (''priority'', Str ''high''), (''createdAt'', Str ''t0''),
               (''updatedAt'', Str ''t1'')]]"
  by (simp add: updateTask_def storageUpdateTask_def world_one_def task_one_def eval_defs)

text \<open>
  What \<open>updateTask\<close> does in general, for any update object and a stored collection
  that loads, holds objects only and has distinct ids: for an id that no stored task
  has it returns \<open>null\<close> and writes nothing beyond what loading does; for the id of
  the task at index \<open>i\<close> it returns that task with every key that the update has
  set to the update's value, \<open>undefined\<close> included, \<open>updatedAt\<close> set to the
  clock reading, and every other key as it was; the whole collection is written back,
  so that every task reads as \<open>rewritten\<close> afterwards.
\<close>

lemma updateTask_merges_present_keys:
  assumes "fst (loadTasks p w) = Inr tasks" and "list_all is_object tasks"
    and "distinct (map fst updates)"
  shows
    "(Str taskId \<notin> set (map id_of tasks) \<longrightarrow>
        updateTask p taskId (Obj updates) w = (Inr Null, snd (loadTasks p w)) \<and>
        fst (loadTasks p (snd (loadTasks p w))) = Inr tasks) \<and>
     (\<forall>i old. distinct (map id_of tasks) \<and> i < length tasks \<and> tasks ! i = Obj old \<and>
          get old ''id'' = Str taskId \<longrightarrow>
        (\<exists>new w'.
           updateTask p taskId (Obj updates) w = (Inr (Obj new), w') \<and>
           (\<forall>k. k \<noteq> ''updatedAt'' \<longrightarrow>
              get new k = (if k \<in> fst ` set updates then get updates k else get old k)) \<and>
           get new ''updatedAt'' = Str (clock w (ticks (snd (loadTasks p w)))) \<and>
           loadTasks p w' = (Inr (map rewritten (tasks[i := Obj new])), w')))"
  (is "?unknown \<and> ?known")
proof -
  obtain w1 where l: "loadTasks p w = (Inr tasks, w1)"
    using assms(1) by (cases "loadTasks p w") simp
  have 1: ?unknown
  proof
    assume "Str taskId \<notin> set (map id_of tasks)"
    then have "findIndex_id tasks taskId = Inr None"
      using assms(2) by (simp add: findIndex_id_none)
    from storageUpdateTask_unknown[OF l this]
    show "updateTask p taskId (Obj updates) w = (Inr Null, snd (loadTasks p w)) \<and>
        fst (loadTasks p (snd (loadTasks p w))) = Inr tasks"
      by (simp add: updateTask_def l loadTasks_again[OF l])
  qed
  have 2: ?known
  proof (intro allI impI)
    fix i old
    assume h: "distinct (map id_of tasks) \<and> i < length tasks \<and> tasks ! i = Obj old \<and>
          get old ''id'' = Str taskId"
    then have "id_of (tasks ! i) = Str taskId" by (simp add: id_of_def)
    with h assms(2) have f: "findIndex_id tasks taskId = Inr (Some i)"
      by (simp add: findIndex_id_found)
    define new where
      "new = set_prop ''updatedAt'' (Str (clock w (ticks w1))) (spread old updates)"
    have u: "updated_task (tasks ! i) (Obj updates) (clock w (ticks w1)) = Obj new"
      using h by (simp add: updated_task_def new_def)
    from storageUpdateTask_found[OF l f, of "Obj updates"] obtain w' where
      r: "updateTask p taskId (Obj updates) w = (Inr (Obj new), w')"
         "loadTasks p w' = (Inr (map rewritten (tasks[i := Obj new])), w')"
      unfolding u updateTask_def by blast
    have g: "\<forall>k. k \<noteq> ''updatedAt'' \<longrightarrow>
             get new k = (if k \<in> fst ` set updates then get updates k else get old k)"
      by (simp add: new_def get_set_prop get_spread[OF assms(3)])
    have t: "get new ''updatedAt'' = Str (clock w (ticks (snd (loadTasks p w))))"
      by (simp add: new_def get_set_prop l)
    from r g t show "\<exists>new w'.
           updateTask p taskId (Obj updates) w = (Inr (Obj new), w') \<and>
           (\<forall>k. k \<noteq> ''updatedAt'' \<longrightarrow>
              get new k = (if k \<in> fst ` set updates then get updates k else get old k)) \<and>
           get new ''updatedAt'' = Str (clock w (ticks (snd (loadTasks p w)))) \<and>
           loadTasks p w' = (Inr (map rewritten (tasks[i := Obj new])), w')"
      by blast
  qed
  from 1 2 show ?thesis by (intro conjI)
qed


section \<open>C5: statistics\<close>

text \<open>
  C5 says that for every stored collection the four counts of \<open>getStats\<close> add up
  to the number of tasks. \<open>createTask\<close> stores the column of its input unchecked
  (\<open>moveTask\<close> checks it, and so does the schema of the MCP tool), and the HTTP
  route passes the request body on as it is. After \<open>POST /api/tasks\<close> with the body
  \<open>{title: x, column: Todo}\<close> in the empty directory \<open>world_fresh\<close>, which is
  answered with status 201, the collection holds one task, and \<open>getStats\<close>
  returns four counts of zero and a fifth key \<open>Todo\<close> holding \<open>NaN\<close>.
\<close>

theorem getStats_after_unchecked_column:
  "fst (handleApi_POST_tasks ''p'' (JObj [(''title'', JStr ''x''), (''column'', JStr ''Todo'')])
          world_fresh) =
     Response 201 (JObj [(''id'', JStr ''u''), (''title'', JStr ''x''), (''column'', JStr ''Todo''),
                         (''priority'', JStr ''medium''), (''createdAt'', JStr ''t1''),
                         (''updatedAt'', JStr ''t1'')]) \<and>
   fst (loadTasks ''p'' (snd (handleApi_POST_tasks ''p''
          (JObj [(''title'', JStr ''x''), (''column'', JStr ''Todo'')]) world_fresh))) =
     Inr [Obj [(''id'', Str ''u''), (''title'', Str ''x''), (''column'', Str ''Todo''),
               (''priority'', Str ''medium''), (''createdAt'', Str ''t1''),
               (''updatedAt'', Str ''t1'')]] \<and>
   fst (getStats ''p'' (snd (handleApi_POST_tasks ''p''
          (JObj [(''title'', JStr ''x''), (''column'', JStr ''Todo'')]) world_fresh))) =
     Inr [(''backlog'', Count 0), (''todo'', Count 0), (''review'', Count 0), (''done'', Count 0),
          (''Todo'', NaN)]"
  by (simp add: handleApi_POST_tasks_def createTask_def getStats_def world_fresh_def eval_defs
      increment_def sendJson_def)

text \<open>
  The same on a stored file: a task whose column is \<open>urgent\<close>.
\<close>

lemma getStats_untyped_column:
  "fst (getStats ''p'' world_urgent) =
     Inr [(''backlog'', Count 0), (''todo'', Count 0), (''review'', Count 0), (''done'', Count 0),
          (''urgent'', NaN)]"
  by (simp add: getStats_def world_urgent_def eval_defs increment_def)

text \<open>
  On the collections that the type \<open>Task\<close> describes, where every column is one of
  the four, \<open>getStats\<close> returns exactly the four keys with the number of tasks in
  each column.
\<close>

lemma count_columns_typed:
  assumes "\<forall>t\<in>set tasks. \<exists>c\<in>set COLUMNS. read_prop t ''column'' = Inr (Str c)"
  shows "count_columns tasks
           [(''backlog'', Count a), (''todo'', Count b), (''review'', Count c), (''done'', Count d)]
         = Inr [(''backlog'', Count (a + count_in ''backlog'' tasks)),
                (''todo'', Count (b + count_in ''todo'' tasks)),
                (''review'', Count (c + count_in ''review'' tasks)),
                (''done'', Count (d + count_in ''done'' tasks))]"
  using assms
proof (induction tasks arbitrary: a b c d)
  case Nil
  then show ?case by (simp add: count_in_def)
next
  case (Cons t ts)
  from Cons.prems obtain col where
    col: "col \<in> set COLUMNS" "read_prop t ''column'' = Inr (Str col)"
    by auto
  have rest: "\<forall>t\<in>set ts. \<exists>c\<in>set COLUMNS. read_prop t ''column'' = Inr (Str c)"
    using Cons.prems by simp
  from col(1) consider "col = ''backlog''" | "col = ''todo''" | "col = ''review''" | "col = ''done''"
    by (auto simp: COLUMNS_def)
  then show ?case
  proof cases
    case 1
    with col Cons.IH[OF rest, of "Suc a" b c d] show ?thesis
      by (simp add: increment_def count_in_def)
  next
    case 2
    with col Cons.IH[OF rest, of a "Suc b" c d] show ?thesis
      by (simp add: increment_def count_in_def)
  next
    case 3
    with col Cons.IH[OF rest, of a b "Suc c" d] show ?thesis
      by (simp add: increment_def count_in_def)
  next
    case 4
    with col Cons.IH[OF rest, of a b c "Suc d"] show ?thesis
      by (simp add: increment_def count_in_def)
  qed
qed

lemma getStats_typed:
  assumes "fst (loadTasks p w) = Inr tasks"
    and "\<forall>t\<in>set tasks. \<exists>c\<in>set COLUMNS. read_prop t ''column'' = Inr (Str c)"
  shows "fst (getStats p w) =
           Inr [(''backlog'', Count (count_in ''backlog'' tasks)),
                (''todo'', Count (count_in ''todo'' tasks)),
                (''review'', Count (count_in ''review'' tasks)),
                (''done'', Count (count_in ''done'' tasks))]"
proof -
  obtain w1 where l: "loadTasks p w = (Inr tasks, w1)"
    using assms(1) by (cases "loadTasks p w") simp
  show ?thesis
    using count_columns_typed[OF assms(2), of 0 0 0 0]
    by (simp add: getStats_def l)
qed


section \<open>C6: deleting a task\<close>

text \<open>
  C6: let the stored collection load and hold objects only. For an id that no stored
  task has, \<open>deleteTask\<close> returns \<open>false\<close>, writes nothing beyond what loading
  does, and the collection read back is the same. For an id that the task at index
  \<open>i\<close> has, in a collection with distinct ids, \<open>deleteTask\<close> returns
  \<open>true\<close>; the collection read back afterwards is the old one without the element
  at \<open>i\<close>, written back and read as \<open>rewritten\<close> (the very same tasks when
  they hold no number that JSON cannot write), so one shorter and in the same order;
  and \<open>getTask\<close> with that id then returns \<open>null\<close>.
\<close>

theorem deleteTask_spec:
  assumes "fst (loadTasks p w) = Inr tasks" and "list_all is_object tasks"
  shows
    "(Str taskId \<notin> set (map id_of tasks) \<longrightarrow>
        deleteTask p taskId w = (Inr False, snd (loadTasks p w)) \<and>
        fst (loadTasks p (snd (loadTasks p w))) = Inr tasks) \<and>
     (\<forall>i. distinct (map id_of tasks) \<and> i < length tasks \<and> id_of (tasks ! i) = Str taskId \<longrightarrow>
        (\<exists>w'.
           deleteTask p taskId w = (Inr True, w') \<and>
           loadTasks p w' = (Inr (map rewritten (take i tasks @ drop (Suc i) tasks)), w') \<and>
           ((\<forall>t\<in>set tasks. rewritten t = t) \<longrightarrow>
              loadTasks p w' = (Inr (take i tasks @ drop (Suc i) tasks), w')) \<and>
           length (map rewritten (take i tasks @ drop (Suc i) tasks)) = length tasks - 1 \<and>
           fst (getTask p taskId w') = Inr Null))"
  (is "?unknown \<and> ?known")
proof -
  obtain w1 where l: "loadTasks p w = (Inr tasks, w1)"
    using assms(1) by (cases "loadTasks p w") simp
  have 1: ?unknown
  proof
    assume "Str taskId \<notin> set (map id_of tasks)"
    then have "findIndex_id tasks taskId = Inr None"
      using assms(2) by (simp add: findIndex_id_none)
    from storageDeleteTask_unknown[OF l this]
    show "deleteTask p taskId w = (Inr False, snd (loadTasks p w)) \<and>
        fst (loadTasks p (snd (loadTasks p w))) = Inr tasks"
      by (simp add: deleteTask_def l loadTasks_again[OF l])
  qed
  have 2: ?known
  proof (intro allI impI)
    fix i
    assume h: "distinct (map id_of tasks) \<and> i < length tasks \<and> id_of (tasks ! i) = Str taskId"
    with assms(2) have f: "findIndex_id tasks taskId = Inr (Some i)"
      by (simp add: findIndex_id_found)
    from storageDeleteTask_found[OF l f] obtain w' where
      d: "deleteTask p taskId w = (Inr True, w')" and
      r: "loadTasks p w' = (Inr (map rewritten (splice1 i tasks)), w')"
      unfolding deleteTask_def by blast
    have p: "\<forall>t\<in>set (splice1 i tasks). t \<in> range of_json"
      using loaded_parsed[OF l] by (auto simp: splice1_def dest: in_set_takeD in_set_dropD)
    have "Str taskId \<notin> set (map id_of (splice1 i tasks))"
      using id_not_in_rest[of id_of tasks i] h by simp
    then have "Str taskId \<notin> set (map id_of (map rewritten (splice1 i tasks)))"
      using rewritten_ids[OF p] by simp
    then have "find_id (map rewritten (splice1 i tasks)) taskId = Inr Null"
      using splice1_all[OF assms(2)] rewritten_objects[OF p] by (simp add: find_id_none)
    then have g: "fst (getTask p taskId w') = Inr Null"
      by (simp add: getTask_def storageFindTask_def r)
    have n: "length (map rewritten (take i tasks @ drop (Suc i) tasks)) = length tasks - 1"
      using h by auto
    have e: "(\<forall>t\<in>set tasks. rewritten t = t) \<longrightarrow>
              loadTasks p w' = (Inr (take i tasks @ drop (Suc i) tasks), w')"
    proof
      assume "\<forall>t\<in>set tasks. rewritten t = t"
      then have "map rewritten (splice1 i tasks) = splice1 i tasks"
        by (intro map_idI) (auto simp: splice1_def dest: in_set_takeD in_set_dropD)
      with r show "loadTasks p w' = (Inr (take i tasks @ drop (Suc i) tasks), w')"
        by (simp add: splice1_def)
    qed
    from d r g n e show "\<exists>w'.
           deleteTask p taskId w = (Inr True, w') \<and>
           loadTasks p w' = (Inr (map rewritten (take i tasks @ drop (Suc i) tasks)), w') \<and>
           ((\<forall>t\<in>set tasks. rewritten t = t) \<longrightarrow>
              loadTasks p w' = (Inr (take i tasks @ drop (Suc i) tasks), w')) \<and>
           length (map rewritten (take i tasks @ drop (Suc i) tasks)) = length tasks - 1 \<and>
           fst (getTask p taskId w') = Inr Null"
      unfolding splice1_def by blast
  qed
  from 1 2 show ?thesis by (intro conjI)
qed

theorem deleteTask_spec_witness:
  "fst (loadTasks ''p'' world_one) = Inr [of_json task_one] \<and>
   deleteTask ''p'' ''u9'' world_one = (Inr False, world_one) \<and>
   (\<exists>w'. deleteTask ''p'' ''u1'' world_one = (Inr True, w') \<and>
          loadTasks ''p'' w' = (Inr [], w') \<and>
          fst (getTask ''p'' ''u1'' w') = Inr Null)"
proof -
  have l: "fst (loadTasks ''p'' world_one) = Inr [of_json task_one]"
    by (rule load_world_one)
  have o: "list_all is_object [of_json task_one]" by (simp add: task_one_def)
  note t = deleteTask_spec[OF l o]
  have n: "Str ''u9'' \<notin> set (map id_of [of_json task_one])"
    by (simp add: task_one_def id_of_def get_def)
  have h: "distinct (map id_of [of_json task_one]) \<and> 0 < length [of_json task_one] \<and>
           id_of ([of_json task_one] ! 0) = Str ''u1''"
    by (simp add: task_one_def id_of_def get_def)
  from t[of "''u9''", THEN conjunct1, rule_format, OF n]
  have 1: "deleteTask ''p'' ''u9'' world_one = (Inr False, world_one)"
    by (simp add: snd_load_world_one)
  from t[of "''u1''", THEN conjunct2, rule_format, OF h]
  obtain w' where
    "deleteTask ''p'' ''u1'' world_one = (Inr True, w')"
    "loadTasks ''p'' w' = (Inr [], w')"
    "fst (getTask ''p'' ''u1'' w') = Inr Null"
    by auto
  with l 1 show ?thesis by blast
qed


section \<open>C7: loading the task store\<close>

text \<open>
  C7, as claimed: a tasks file that is present makes \<open>loadTasks\<close> fail exactly when
  its content is not a collection of task-shaped records. The code does not look at
  the elements: the file \<open>[42]\<close> loads, and \<open>42\<close> is no \<open>Task\<close>.
\<close>

theorem loadTasks_accepts_non_tasks:
  "fst (loadTasks ''p'' world_42) = Inr [Num ''42''] \<and> \<not> is_Task (Num ''42'')"
  by (simp add: world_42_def loadTasks_def getTasksPath_def loadConfig_def getConfigPath_def
      path_join_def CONFIG_FILENAME_def DEFAULT_CONFIG_def spread_def get_def)

text \<open>
  C7, amended: in a project whose configuration loads and names the tasks file
  \<open>path\<close>, \<open>loadTasks\<close> on an absent tasks file returns the empty collection
  and leaves the file holding \<open>[]\<close>; on a present file it fails exactly when the
  text is not JSON (\<open>Invalid JSON in tasks file\<close>, with the path) or its top level
  is not an array (\<open>Tasks file must contain an array\<close>); otherwise it returns the
  parsed array as it is, whatever its elements are.
\<close>

theorem loadTasks_spec:
  assumes "fst (getTasksPath p w) = Inr path"
  shows "(files w path = None \<longrightarrow>
            fst (loadTasks p w) = Inr [] \<and>
            files (snd (loadTasks p w)) path = Some (Doc (JArr []))) \<and>
         (files w path = Some Garbled \<longrightarrow>
            fst (loadTasks p w) = Inl (Error (''Invalid JSON in tasks file: '' @ path))) \<and>
         (\<forall>parsed. files w path = Some (Doc parsed) \<longrightarrow>
            fst (loadTasks p w) =
              (case parsed of
                 JArr js \<Rightarrow> Inr (map of_json js)
               | _ \<Rightarrow> Inl (Error ''Tasks file must contain an array'')))"
proof -
  obtain wa where gp: "getTasksPath p w = (Inr path, wa)"
    using assms by (cases "getTasksPath p w") simp
  have 1: "files w path = None \<Longrightarrow> files (snd (loadTasks p w)) path = Some (Doc (JArr []))"
  proof -
    assume n: "files w path = None"
    show ?thesis by (simp add: loadTasks_absent[OF gp n] stored_def)
  qed
  show ?thesis
    using 1 by (auto simp: loadTasks_fst assms split: json.splits)
qed


theorem loadTasks_spec_witness:
  "fst (getTasksPath ''p'' world_42) = Inr ''p/tasks.json'' \<and>
   files world_42 ''p/tasks.json'' = Some (Doc (JArr [JNum ''42''])) \<and>
   fst (loadTasks ''p'' world_42) = Inr [Num ''42'']"
proof -
  have g: "fst (getTasksPath ''p'' world_42) = Inr ''p/tasks.json''"
    by (simp add: world_42_def getTasksPath_def loadConfig_def getConfigPath_def path_join_def
      CONFIG_FILENAME_def DEFAULT_CONFIG_def spread_def get_def)
  have f: "files world_42 ''p/tasks.json'' = Some (Doc (JArr [JNum ''42'']))"
    by (simp add: world_42_def)
  from loadTasks_spec[OF g] f show ?thesis using g by simp
qed


section \<open>C8: loading the configuration\<close>

text \<open>
  C8: in a directory with no configuration file, \<open>loadConfig\<close> returns
  \<open>boardName\<close> \<open>Kanban Board\<close>, \<open>tasksFile\<close> \<open>tasks.json\<close> and
  \<open>createdAt\<close> the clock reading of the call, and writes exactly that to the
  configuration file. On a configuration file that holds a mapping, it writes nothing
  and returns, key by key, the stored value where the mapping has the key and the value
  of \<open>DEFAULT_CONFIG\<close> where it has not (\<open>DEFAULT_CONFIG\<close> has \<open>boardName\<close>
  and \<open>tasksFile\<close>; it has no \<open>createdAt\<close>, which therefore stays absent when the
  file lacks it). A second \<open>loadConfig\<close> after a successful one returns the same
  configuration and changes nothing, so \<open>createdAt\<close> is not written again.
\<close>

theorem loadConfig_spec:
  "(files w (getConfigPath p) = None \<longrightarrow>
      loadConfig p w =
        (Inr [(''boardName'', Str ''Kanban Board''), (''tasksFile'', Str ''tasks.json''),
              (''createdAt'', Str (clock w (ticks w)))],
         w\<lparr>ticks := Suc (ticks w),
           files := (files w)(getConfigPath p \<mapsto>
             Doc (JObj [(''boardName'', JStr ''Kanban Board''), (''tasksFile'', JStr ''tasks.json''),
                        (''createdAt'', JStr (clock w (ticks w)))]))\<rparr>)) \<and>
   (\<forall>stored. files w (getConfigPath p) = Some (Doc (JObj stored)) \<and> distinct (map fst stored) \<longrightarrow>
      (\<exists>config. loadConfig p w = (Inr config, w) \<and>
         (\<forall>k. get config k =
            (case map_of stored k of Some v \<Rightarrow> of_json v | None \<Rightarrow> get DEFAULT_CONFIG k)))) \<and>
   (\<forall>config w1. loadConfig p w = (Inr config, w1) \<longrightarrow> loadConfig p w1 = (Inr config, w1))"
  (is "?fresh \<and> ?merge \<and> ?again")
proof -
  have 1: ?fresh
    by (simp add: loadConfig_def toISOString_now_def saveConfig_def writeFileSync_def
        DEFAULT_CONFIG_def)
  have 2: ?merge
  proof (intro allI impI)
    fix stored
    assume h: "files w (getConfigPath p) = Some (Doc (JObj stored)) \<and> distinct (map fst stored)"
    let ?b = "map (\<lambda>(k, v). (k, of_json v)) stored"
    have d: "distinct (map fst ?b)"
      using h by (simp add: case_prod_unfold comp_def)
    have k: "\<And>k. k \<in> fst ` set ?b \<longleftrightarrow> map_of stored k \<noteq> None"
      by (force simp: map_of_eq_None_iff)
    have "\<forall>k. get (spread DEFAULT_CONFIG ?b) k =
            (case map_of stored k of Some v \<Rightarrow> of_json v | None \<Rightarrow> get DEFAULT_CONFIG k)"
      using k by (auto simp: get_spread[OF d] get_of_json_props split: option.splits)
    then show "\<exists>config. loadConfig p w = (Inr config, w) \<and>
         (\<forall>k. get config k =
            (case map_of stored k of Some v \<Rightarrow> of_json v | None \<Rightarrow> get DEFAULT_CONFIG k))"
      using h by (simp add: loadConfig_def)
  qed
  have 3: ?again
  proof (intro allI impI)
    fix config w1
    assume "loadConfig p w = (Inr config, w1)"
    then show "loadConfig p w1 = (Inr config, w1)"
      by (rule loadConfig_post) (simp add: loadConfig_def)
  qed
  from 1 2 3 show ?thesis by (intro conjI)
qed

theorem loadConfig_spec_witness:
  "files world_fresh (getConfigPath ''p'') = None \<and>
   fst (loadConfig ''p'' world_fresh) =
     Inr [(''boardName'', Str ''Kanban Board''), (''tasksFile'', Str ''tasks.json''),
          (''createdAt'', Str ''t1'')] \<and>
   loadConfig ''p'' (snd (loadConfig ''p'' world_fresh)) =
     (Inr [(''boardName'', Str ''Kanban Board''), (''tasksFile'', Str ''tasks.json''),
           (''createdAt'', Str ''t1'')], snd (loadConfig ''p'' world_fresh)) \<and>
   (\<exists>config. loadConfig ''p'' world_named = (Inr config, world_named) \<and>
      get config ''boardName'' = Str ''My Board'' \<and> get config ''tasksFile'' = Str ''tasks.json'')"
proof -
  note t = loadConfig_spec[of world_fresh "''p''"]
  have f: "files world_fresh (getConfigPath ''p'') = None"
    by (simp add: world_fresh_def)
  from t[THEN conjunct1] f have 1: "fst (loadConfig ''p'' world_fresh) =
     Inr [(''boardName'', Str ''Kanban Board''), (''tasksFile'', Str ''tasks.json''),
          (''createdAt'', Str ''t1'')]"
    by (simp add: world_fresh_def)
  then have "loadConfig ''p'' world_fresh =
     (Inr [(''boardName'', Str ''Kanban Board''), (''tasksFile'', Str ''tasks.json''),
          (''createdAt'', Str ''t1'')], snd (loadConfig ''p'' world_fresh))"
    by (cases "loadConfig ''p'' world_fresh") simp
  with t[THEN conjunct2, THEN conjunct2] have 2:
    "loadConfig ''p'' (snd (loadConfig ''p'' world_fresh)) =
     (Inr [(''boardName'', Str ''Kanban Board''), (''tasksFile'', Str ''tasks.json''),
           (''createdAt'', Str ''t1'')], snd (loadConfig ''p'' world_fresh))"
    by blast
  have n: "files world_named (getConfigPath ''p'') =
             Some (Doc (JObj [(''boardName'', JStr ''My Board'')])) \<and>
           distinct (map fst [(''boardName'', JStr ''My Board'')])"
    by (simp add: world_named_def getConfigPath_def path_join_def CONFIG_FILENAME_def)
  from loadConfig_spec[of world_named "''p''", THEN conjunct2, THEN conjunct1, rule_format, OF n]
  obtain config where "loadConfig ''p'' world_named = (Inr config, world_named)"
    "get config ''boardName'' = Str ''My Board''" "get config ''tasksFile'' = Str ''tasks.json''"
    by (auto simp: DEFAULT_CONFIG_def get_def)
  with f 1 2 show ?thesis by blast
qed


section \<open>C9: the recent projects\<close>

text \<open>
  C9: let the registry load as a mapping (also when its file is absent) whose recent
  list has no path twice. Then every sequence of calls of \<open>setLastProjectPath\<close>
  succeeds, and each call turns the recent list into \<open>recent_spec\<close> of it: the
  path in front, its earlier occurrence removed, cut to ten entries. So afterwards
  \<open>getRecentProjects\<close> returns the list with the most recent path first, without
  duplicates and, after at least one call, with at most ten entries, and
  \<open>getLastProjectPath\<close> returns the last path given. In particular after
  \<open>/a\<close>, \<open>/b\<close>, \<open>/a\<close> the list begins with \<open>/a\<close>, \<open>/b\<close> and holds
  \<open>/a\<close> once.
\<close>

theorem setLastProjectPath_spec:
  assumes "loadGlobalConfig home w = Obj config"
    and "getRecentProjects home w = Inr (Arr recent)"
    and "distinct recent"
  shows
    "(\<exists>w'. setLastProjectPaths home paths w = (Inr (), w') \<and>
        getRecentProjects home w' = Inr (Arr (fold (\<lambda>p. recent_spec (Str p)) paths recent)) \<and>
        distinct (fold (\<lambda>p. recent_spec (Str p)) paths recent) \<and>
        (paths \<noteq> [] \<longrightarrow>
           length (fold (\<lambda>p. recent_spec (Str p)) paths recent) \<le> 10 \<and>
           hd (fold (\<lambda>p. recent_spec (Str p)) paths recent) = Str (last paths) \<and>
           getLastProjectPath home w' = Inr (Str (last paths)))) \<and>
     (\<exists>w' rest. setLastProjectPaths home [''/a'', ''/b'', ''/a''] w = (Inr (), w') \<and>
        getRecentProjects home w' = Inr (Arr (Str ''/a'' # Str ''/b'' # rest)) \<and>
        Str ''/a'' \<notin> set rest)"
  (is "?general \<and> ?scenario")
proof -
  have 1: ?general
  proof -
    from setLastProjectPaths_run[OF assms, of paths] obtain w' where
      r: "setLastProjectPaths home paths w = (Inr (), w')"
         "getRecentProjects home w' = Inr (Arr (fold (\<lambda>p. recent_spec (Str p)) paths recent))"
         "paths \<noteq> [] \<longrightarrow> getLastProjectPath home w' = Inr (Str (last paths))"
      by blast
    have d: "distinct (fold (\<lambda>p. recent_spec (Str p)) paths recent)"
      by (rule fold_recent_distinct[OF assms(3)])
    have "paths \<noteq> [] \<longrightarrow>
           length (fold (\<lambda>p. recent_spec (Str p)) paths recent) \<le> 10 \<and>
           hd (fold (\<lambda>p. recent_spec (Str p)) paths recent) = Str (last paths)"
      by (auto simp: fold_recent_last recent_spec_length recent_spec_hd)
    with r d show ?thesis by blast
  qed
  have 2: ?scenario
  proof -
    from setLastProjectPaths_run[OF assms, of "[''/a'', ''/b'', ''/a'']"] obtain w' where
      r: "setLastProjectPaths home [''/a'', ''/b'', ''/a''] w = (Inr (), w')"
         "getRecentProjects home w' =
            Inr (Arr (recent_spec (Str ''/a'') (recent_spec (Str ''/b'')
                   (recent_spec (Str ''/a'') recent))))"
      by auto
    have "Str ''/a'' \<noteq> Str ''/b''" by simp
    from scenario_a_b_a[OF this, of recent] r show ?thesis by auto
  qed
  from 1 2 show ?thesis by (intro conjI)
qed

theorem setLastProjectPath_spec_witness:
  "loadGlobalConfig ''h'' world_fresh = Obj [] \<and>
   getRecentProjects ''h'' world_fresh = Inr (Arr []) \<and>
   (\<exists>w'. setLastProjectPaths ''h'' [''/a'', ''/b'', ''/a''] world_fresh = (Inr (), w') \<and>
      getRecentProjects ''h'' w' = Inr (Arr [Str ''/a'', Str ''/b'']) \<and>
      getLastProjectPath ''h'' w' = Inr (Str ''/a''))"
proof -
  have c: "loadGlobalConfig ''h'' world_fresh = Obj []"
    by (simp add: loadGlobalConfig_def world_fresh_def)
  have r: "getRecentProjects ''h'' world_fresh = Inr (Arr [])"
    by (simp add: getRecentProjects_def c get_def or_else_def)
  have d: "distinct ([] :: jsval list)" by simp
  from setLastProjectPath_spec[OF c r d, of "[''/a'', ''/b'', ''/a'']", THEN conjunct1]
  obtain w' where
    "setLastProjectPaths ''h'' [''/a'', ''/b'', ''/a''] world_fresh = (Inr (), w')"
    "getRecentProjects ''h'' w' = Inr (Arr [Str ''/a'', Str ''/b''])"
    "getLastProjectPath ''h'' w' = Inr (Str ''/a'')"
    by (auto simp: recent_spec_def)
  with c r show ?thesis by blast
qed



section \<open>C10: a registry file that is not the expected mapping\<close>

text \<open>
  C10, as claimed: reading a registry file that does not parse fails. The code catches
  the failure: with such a file \<open>getLastProjectPath\<close> returns \<open>undefined\<close> and
  \<open>getRecentProjects\<close> returns the empty list.
\<close>

theorem registry_reads_swallow_garbled:
  "getLastProjectPath ''h'' world_garbled = Inr Undefined \<and>
   getRecentProjects ''h'' world_garbled = Inr (Arr [])"
  by (simp add: getLastProjectPath_def getRecentProjects_def loadGlobalConfig_def
      getGlobalConfigPath_def GLOBAL_CONFIG_FILENAME_def path_join_def world_garbled_def
      get_def or_else_def)

text \<open>
  C10, amended: the two read operations never fail, whatever the registry file holds,
  and nothing is checked. \<open>loadGlobalConfig\<close> gives the empty mapping when there is
  no file, when the parser throws, and when the document is falsy (empty, \<open>null\<close>,
  \<open>false\<close>, \<open>0\<close>, the empty string); any other document it gives as it is.
  \<open>getLastProjectPath\<close> returns the stored \<open>lastProjectPath\<close>, of whatever
  type, when the document is a mapping that has the key, and \<open>undefined\<close> in every
  other case. \<open>getRecentProjects\<close> returns the stored \<open>recentProjects\<close>, of
  whatever type, when the document is a mapping that has the key with a truthy value,
  and the empty list in every other case.
\<close>

theorem registry_reads_never_fail:
  "loadGlobalConfig home w =
     (case files w (getGlobalConfigPath home) of
        None \<Rightarrow> Obj []
      | Some Garbled \<Rightarrow> Obj []
      | Some (Doc parsed) \<Rightarrow> if truthy (of_json parsed) then of_json parsed else Obj []) \<and>
   getLastProjectPath home w =
     Inr (case files w (getGlobalConfigPath home) of
            Some (Doc (JObj kvs)) \<Rightarrow>
              (case map_of kvs ''lastProjectPath'' of
                 None \<Rightarrow> Undefined
               | Some v \<Rightarrow> of_json v)
          | _ \<Rightarrow> Undefined) \<and>
   getRecentProjects home w =
     Inr (case files w (getGlobalConfigPath home) of
            Some (Doc (JObj kvs)) \<Rightarrow>
              (case map_of kvs ''recentProjects'' of
                 None \<Rightarrow> Arr []
               | Some v \<Rightarrow> if truthy (of_json v) then of_json v else Arr [])
          | _ \<Rightarrow> Arr [])"
proof -
  have e: "get [] k = Undefined" for k by (simp add: get_def)
  have 1: "loadGlobalConfig home w =
     (case files w (getGlobalConfigPath home) of
        None \<Rightarrow> Obj []
      | Some Garbled \<Rightarrow> Obj []
      | Some (Doc parsed) \<Rightarrow> if truthy (of_json parsed) then of_json parsed else Obj [])"
    by (simp add: loadGlobalConfig_def or_else_def split: option.splits content.splits)
  have 2: "getLastProjectPath home w =
     Inr (case files w (getGlobalConfigPath home) of
            Some (Doc (JObj kvs)) \<Rightarrow>
              (case map_of kvs ''lastProjectPath'' of
                 None \<Rightarrow> Undefined
               | Some v \<Rightarrow> of_json v)
          | _ \<Rightarrow> Undefined)"
    unfolding getLastProjectPath_def 1
    by (auto simp: get_of_json_props e split: option.splits content.splits json.splits)
  have 3: "getRecentProjects home w =
     Inr (case files w (getGlobalConfigPath home) of
            Some (Doc (JObj kvs)) \<Rightarrow>
              (case map_of kvs ''recentProjects'' of
                 None \<Rightarrow> Arr []
               | Some v \<Rightarrow> if truthy (of_json v) then of_json v else Arr [])
          | _ \<Rightarrow> Arr [])"
    unfolding getRecentProjects_def 1
    by (auto simp: get_of_json_props e or_else_def
        split: option.splits content.splits json.splits)
  from 1 2 3 show ?thesis by (intro conjI)
qed

theorem registry_reads_never_fail_witness:
  "loadGlobalConfig ''h'' world_garbled = Obj [] \<and>
   getLastProjectPath ''h'' world_garbled = Inr Undefined \<and>
   getRecentProjects ''h'' world_garbled = Inr (Arr []) \<and>
   loadGlobalConfig ''h'' world_hello = Str ''hello'' \<and>
   getLastProjectPath ''h'' world_hello = Inr Undefined \<and>
   getRecentProjects ''h'' world_hello = Inr (Arr []) \<and>
   getLastProjectPath ''h'' world_old = Inr Undefined \<and>
   getRecentProjects ''h'' world_old = Inr (Str ''/old'')"
  using registry_reads_never_fail[of "''h''" world_garbled]
    registry_reads_never_fail[of "''h''" world_hello]
    registry_reads_never_fail[of "''h''" world_old]
  by (simp add: world_garbled_def world_hello_def world_old_def getGlobalConfigPath_def
      GLOBAL_CONFIG_FILENAME_def path_join_def)


end
